theory Spec2Isabelle
  imports Complex_Main "HOL-Library.Word" "HOL-Library.Signed_Division"
begin

section \<open>Data model of \<^verbatim>\<open>sequence.cpp\<close>\<close>

text \<open>
  The C++ \<^verbatim>\<open>int\<close> fields \<^verbatim>\<open>duration\<close> and \<^verbatim>\<open>timeToTarget\<close> are 32-bit two's
  complement words: \<open>+\<close> wraps around, comparisons are the signed ones and \<^verbatim>\<open>/\<close>
  truncates towards zero. A \<^verbatim>\<open>double\<close> coordinate is a \<open>real\<close>: the code only copies,
  compares and halves coordinates, and rounding and NaN are not modelled. List lengths
  and the cursor are \<open>int\<close>, the dimension \<^verbatim>\<open>unsigned int m_pointDim\<close> is a \<open>nat\<close>.
\<close>

type_synonym cint = "32 word"

text \<open>\<^verbatim>\<open>std::max(a, b)\<close> is \<^verbatim>\<open>(a < b) ? b : a\<close>, \<^verbatim>\<open>std::min(a, b)\<close> is \<^verbatim>\<open>(b < a) ? b : a\<close>.\<close>

definition std_max :: "real \<Rightarrow> real \<Rightarrow> real" where
  "std_max a b = (if a < b then b else a)"

definition std_min :: "real \<Rightarrow> real \<Rightarrow> real" where
  "std_min a b = (if b < a then b else a)"

definition std_max_int :: "cint \<Rightarrow> cint \<Rightarrow> cint" where
  "std_max_int a b = (if word_sless a b then b else a)"

definition std_min_int :: "cint \<Rightarrow> cint \<Rightarrow> cint" where
  "std_min_int a b = (if word_sless b a then b else a)"

text \<open>\<^verbatim>\<open>x / 2\<close> on \<^verbatim>\<open>int\<close>: the quotient truncated towards zero.\<close>

definition half_int :: "cint \<Rightarrow> cint" where
  "half_int x = word_of_int (sint x sdiv 2)"

record SequencePoint =
  point :: "real list"
  duration :: cint
  timeToTarget :: cint

text \<open>The Qt signals of \<^verbatim>\<open>Sequence\<close>; \<open>emitted\<close> below records them in the order of the
  \<^verbatim>\<open>emit\<close> statements.\<close>

datatype signal =
    curPointChanged
  | numPointsChanged
  | curPointValuesChanged
  | pointValuesChanged int
  | isModifiedChanged

record Sequence =
  m_pointDim :: nat
  m_min :: SequencePoint
  m_max :: SequencePoint
  m_sequence :: "SequencePoint list"
  m_curPoint :: int
  m_isModified :: bool
  emitted :: "signal list"

text \<open>
  \<^verbatim>\<open>operator[]\<close> of \<^verbatim>\<open>QList\<close> and \<^verbatim>\<open>QVector\<close> with an index out of range is undefined
  behaviour (an assertion in debug builds): \<open>None\<close>. Every function that indexes
  returns an \<open>option\<close>, and \<open>None\<close> stands for such an access.
\<close>

definition elem_at :: "'a list \<Rightarrow> int \<Rightarrow> 'a option" where
  "elem_at xs i = (if 0 \<le> i \<and> i < int (length xs) then Some (xs ! nat i) else None)"

text \<open>\<^verbatim>\<open>QList::insert(i, v)\<close>: prepends for \<^verbatim>\<open>i <= 0\<close>, appends for \<^verbatim>\<open>i >= size()\<close>.\<close>

definition qlist_insert :: "int \<Rightarrow> 'a \<Rightarrow> 'a list \<Rightarrow> 'a list" where
  "qlist_insert i v xs = take (nat i) xs @ [v] @ drop (nat i) xs"

text \<open>\<^verbatim>\<open>QList::removeAt(i)\<close>: \<^verbatim>\<open>i\<close> must be a valid index.\<close>

definition removeAt :: "int \<Rightarrow> 'a list \<Rightarrow> 'a list option" where
  "removeAt i xs =
     (if 0 \<le> i \<and> i < int (length xs) then Some (take (nat i) xs @ drop (nat i + 1) xs)
      else None)"

text \<open>Modelled from the spec: \<^verbatim>\<open>Sequence::isValid\<close> is declared in \<^verbatim>\<open>sequence.h\<close>, which
  is absent; a Sequence is valid iff \<^verbatim>\<open>pointDim > 0\<close>.\<close>

definition isValid :: "Sequence \<Rightarrow> bool" where
  "isValid s = (0 < m_pointDim s)"

definition emit :: "signal \<Rightarrow> Sequence \<Rightarrow> Sequence" where
  "emit e s = s\<lparr>emitted := emitted s @ [e]\<rparr>"

definition sequenceModified :: "Sequence \<Rightarrow> Sequence" where
  "sequenceModified s =
     (if \<not> m_isModified s then emit isModifiedChanged (s\<lparr>m_isModified := True\<rparr>) else s)"

section \<open>Validation\<close>

text \<open>The first half of \<^verbatim>\<open>validatePoint\<close>: the coordinate vector is padded with 0.0 or
  cut to \<^verbatim>\<open>m_pointDim\<close> entries.\<close>

definition resize_coords :: "nat \<Rightarrow> real list \<Rightarrow> real list" where
  "resize_coords n xs =
     (if length xs < n then xs @ replicate (n - length xs) 0
      else if n < length xs then take n xs
      else xs)"

text \<open>The loop \<^verbatim>\<open>for (i = 0; i < p.point.length(); ++i) p.point[i] = std::min(m_max.point[i],
  std::max(m_min.point[i], p.point[i]))\<close>, the three vectors walked together; a bound
  vector that ends first is an access out of range.\<close>

fun clampCoords :: "real list \<Rightarrow> real list \<Rightarrow> real list \<Rightarrow> real list option" where
  "clampCoords mn mx [] = Some []"
| "clampCoords (a # mn) (b # mx) (v # vs) =
     map_option ((#) (std_min b (std_max a v))) (clampCoords mn mx vs)"
| "clampCoords mn mx (v # vs) = None"

definition validatePoint :: "Sequence \<Rightarrow> SequencePoint \<Rightarrow> bool \<Rightarrow> SequencePoint option" where
  "validatePoint s p skipLimits =
     (let p1 = p\<lparr>point := resize_coords (m_pointDim s) (point p)\<rparr> in
      if skipLimits then Some p1
      else case clampCoords (point (m_min s)) (point (m_max s)) (point p1) of
             None \<Rightarrow> None
           | Some cs \<Rightarrow>
               Some (p1\<lparr>point := cs,
                       duration :=
                         std_min_int (duration (m_max s)) (std_max_int (duration (m_min s)) (duration p1)),
                       timeToTarget :=
                         std_min_int (timeToTarget (m_max s))
                           (std_max_int (timeToTarget (m_min s)) (timeToTarget p1))\<rparr>))"

text \<open>The loop of \<^verbatim>\<open>defaultSequencePoint\<close>: \<^verbatim>\<open>p.point[i] = (max.point[i] + min.point[i]) / 2.0\<close>
  for \<^verbatim>\<open>i < pointDim\<close>.\<close>

fun midCoords :: "nat \<Rightarrow> real list \<Rightarrow> real list \<Rightarrow> real list option" where
  "midCoords 0 mx mn = Some []"
| "midCoords (Suc n) (b # mx) (a # mn) = map_option ((#) ((b + a) / 2)) (midCoords n mx mn)"
| "midCoords (Suc n) mx mn = None"

text \<open>
  \<^verbatim>\<open>defaultSequencePoint\<close> starts from a default-constructed \<^verbatim>\<open>SequencePoint p\<close>. That
  constructor is declared in \<^verbatim>\<open>sequence.h\<close>, which is absent, so the default-constructed
  point is the parameter \<open>dflt\<close> here and wherever the code default-constructs a point.
  The function assigns \<^verbatim>\<open>duration\<close> and \<^verbatim>\<open>point\<close>; \<^verbatim>\<open>timeToTarget\<close> keeps the value of
  \<open>dflt\<close>.
\<close>

definition defaultSequencePoint :: "SequencePoint \<Rightarrow> Sequence \<Rightarrow> SequencePoint option" where
  "defaultSequencePoint dflt s =
     (case midCoords (m_pointDim s) (point (m_max s)) (point (m_min s)) of
        None \<Rightarrow> None
      | Some cs \<Rightarrow>
          Some (dflt\<lparr>duration := half_int (duration (m_max s) + duration (m_min s)),
                     point := cs\<rparr>))"

text \<open>The constructor: \<^verbatim>\<open>validatePoint(minVals, true)\<close> and \<^verbatim>\<open>validatePoint(maxVals, true)\<close>
  run when only \<^verbatim>\<open>m_pointDim\<close> is initialised and return right after the resize.\<close>

definition Sequence_ctor :: "nat \<Rightarrow> SequencePoint \<Rightarrow> SequencePoint \<Rightarrow> Sequence" where
  "Sequence_ctor pointDim minVals maxVals =
     \<lparr>m_pointDim = pointDim,
      m_min = minVals\<lparr>point := resize_coords pointDim (point minVals)\<rparr>,
      m_max = maxVals\<lparr>point := resize_coords pointDim (point maxVals)\<rparr>,
      m_sequence = [],
      m_curPoint = -1,
      m_isModified = False,
      emitted = []\<rparr>"

text \<open>Modelled from the spec: \<^verbatim>\<open>std::make_unique<Sequence>()\<close> uses the default arguments
  of the constructor, declared in \<^verbatim>\<open>sequence.h\<close>, which is absent; the default Sequence
  is the invalid one, \<^verbatim>\<open>pointDim = 0\<close>, with default-constructed bounds.\<close>

definition Sequence_default :: "SequencePoint \<Rightarrow> Sequence" where
  "Sequence_default dflt = Sequence_ctor 0 dflt dflt"

section \<open>Cursor and list mutation\<close>

definition setCurPoint :: "int \<Rightarrow> Sequence \<Rightarrow> Sequence" where
  "setCurPoint p s =
     (if m_sequence s = [] then s
      else
        let p1 = (if p < 0 then 0
                  else if p \<ge> int (length (m_sequence s)) then int (length (m_sequence s)) - 1
                  else p)
        in if p1 \<noteq> m_curPoint s then emit curPointChanged (s\<lparr>m_curPoint := p1\<rparr>) else s)"

text \<open>The point the three insertions store: the validated default point when there is
  no current point, the validated current point otherwise.\<close>

definition newPoint :: "SequencePoint \<Rightarrow> Sequence \<Rightarrow> SequencePoint option" where
  "newPoint dflt s =
     (if m_curPoint s = -1 then
        (case defaultSequencePoint dflt s of
           None \<Rightarrow> None
         | Some d \<Rightarrow> validatePoint s d False)
      else
        (case elem_at (m_sequence s) (m_curPoint s) of
           None \<Rightarrow> None
         | Some cur \<Rightarrow> validatePoint s cur False))"

definition insertAfterCurrent :: "SequencePoint \<Rightarrow> Sequence \<Rightarrow> Sequence option" where
  "insertAfterCurrent dflt s =
     (if \<not> isValid s then Some s
      else case newPoint dflt s of
        None \<Rightarrow> None
      | Some v \<Rightarrow>
          let s1 = (if m_curPoint s = -1 then s\<lparr>m_sequence := m_sequence s @ [v]\<rparr>
                    else s\<lparr>m_sequence := qlist_insert (m_curPoint s + 1) v (m_sequence s)\<rparr>);
              s2 = emit numPointsChanged s1;
              s3 = emit curPointChanged (s2\<lparr>m_curPoint := m_curPoint s2 + 1\<rparr>)
          in Some (sequenceModified s3))"

definition insertBeforeCurrent :: "SequencePoint \<Rightarrow> Sequence \<Rightarrow> Sequence option" where
  "insertBeforeCurrent dflt s =
     (if \<not> isValid s then Some s
      else case newPoint dflt s of
        None \<Rightarrow> None
      | Some v \<Rightarrow>
          let s1 = (if m_curPoint s = -1
                    then emit curPointChanged (s\<lparr>m_sequence := m_sequence s @ [v], m_curPoint := 0\<rparr>)
                    else s\<lparr>m_sequence := qlist_insert (m_curPoint s) v (m_sequence s)\<rparr>);
              s2 = emit numPointsChanged s1;
              s3 = emit curPointValuesChanged s2
          in Some (sequenceModified s3))"

definition append_seq :: "SequencePoint \<Rightarrow> Sequence \<Rightarrow> Sequence option" where
  "append_seq dflt s =
     (if \<not> isValid s then Some s
      else case newPoint dflt s of
        None \<Rightarrow> None
      | Some v \<Rightarrow>
          let s1 = s\<lparr>m_sequence := m_sequence s @ [v]\<rparr>;
              s2 = emit numPointsChanged s1;
              s3 = emit curPointChanged (s2\<lparr>m_curPoint := int (length (m_sequence s2)) - 1\<rparr>)
          in Some (sequenceModified s3))"

definition removeCurrent :: "Sequence \<Rightarrow> Sequence option" where
  "removeCurrent s =
     (if \<not> isValid s \<or> m_curPoint s = -1 then Some s
      else case removeAt (m_curPoint s) (m_sequence s) of
        None \<Rightarrow> None
      | Some xs \<Rightarrow>
          let s1 = emit numPointsChanged (s\<lparr>m_sequence := xs\<rparr>);
              s2 = (if m_curPoint s1 \<ge> int (length (m_sequence s1))
                    then emit curPointChanged (s1\<lparr>m_curPoint := int (length (m_sequence s1)) - 1\<rparr>)
                    else emit curPointValuesChanged s1)
          in Some (sequenceModified s2))"

definition clear :: "Sequence \<Rightarrow> Sequence" where
  "clear s =
     (if \<not> isValid s then s
      else
        let s1 = (if m_sequence s \<noteq> []
                  then emit curPointChanged
                         ((emit numPointsChanged (s\<lparr>m_sequence := []\<rparr>))\<lparr>m_curPoint := -1\<rparr>)
                  else s)
        in sequenceModified s1)"

section \<open>Field accessors and mutators\<close>

text \<open>The tail shared by the four positional setters once the stored value differs:
  \<^verbatim>\<open>pointValuesChanged(pos)\<close>, \<^verbatim>\<open>curPointValuesChanged\<close> if \<^verbatim>\<open>pos == m_curPoint\<close>, then
  \<^verbatim>\<open>sequenceModified()\<close>.\<close>

definition signalChange :: "int \<Rightarrow> Sequence \<Rightarrow> Sequence" where
  "signalChange pos s =
     (let s1 = emit (pointValuesChanged pos) s;
          s2 = (if pos = m_curPoint s1 then emit curPointValuesChanged s1 else s1)
      in sequenceModified s2)"

definition setPoint_pos :: "int \<Rightarrow> SequencePoint \<Rightarrow> Sequence \<Rightarrow> Sequence option" where
  "setPoint_pos pos p s =
     (if \<not> isValid s then Some s
      else case elem_at (m_sequence s) pos of
        None \<Rightarrow> None
      | Some old \<Rightarrow>
          (case validatePoint s p False of
             None \<Rightarrow> None
           | Some v \<Rightarrow>
               let s1 = s\<lparr>m_sequence := (m_sequence s)[nat pos := v]\<rparr>
               in if old = v then Some s1 else Some (signalChange pos s1)))"

definition setPoint :: "SequencePoint \<Rightarrow> Sequence \<Rightarrow> Sequence option" where
  "setPoint p s = (if m_curPoint s < 0 then Some s else setPoint_pos (m_curPoint s) p s)"

definition setPointCoordinate_pos :: "int \<Rightarrow> int \<Rightarrow> real \<Rightarrow> Sequence \<Rightarrow> Sequence option" where
  "setPointCoordinate_pos pos c v s =
     (if \<not> isValid s then Some s
      else case elem_at (m_sequence s) pos of
        None \<Rightarrow> None
      | Some sp \<Rightarrow>
          (case (elem_at (point sp) c, elem_at (point (m_max s)) c, elem_at (point (m_min s)) c) of
             (Some old, Some mx, Some mn) \<Rightarrow>
               let nv = std_min mx (std_max mn v);
                   s1 = s\<lparr>m_sequence := (m_sequence s)[nat pos := sp\<lparr>point := (point sp)[nat c := nv]\<rparr>]\<rparr>
               in if old = nv then Some s1 else Some (signalChange pos s1)
           | _ \<Rightarrow> None))"

definition setPointCoordinate :: "int \<Rightarrow> real \<Rightarrow> Sequence \<Rightarrow> Sequence option" where
  "setPointCoordinate c v s =
     (if m_curPoint s < 0 then Some s else setPointCoordinate_pos (m_curPoint s) c v s)"

definition setDuration_pos :: "int \<Rightarrow> cint \<Rightarrow> Sequence \<Rightarrow> Sequence option" where
  "setDuration_pos pos d s =
     (if \<not> isValid s then Some s
      else case elem_at (m_sequence s) pos of
        None \<Rightarrow> None
      | Some sp \<Rightarrow>
          let nv = std_min_int (duration (m_max s)) (std_max_int (duration (m_min s)) d);
              s1 = s\<lparr>m_sequence := (m_sequence s)[nat pos := sp\<lparr>duration := nv\<rparr>]\<rparr>
          in if duration sp = nv then Some s1 else Some (signalChange pos s1))"

definition setDuration :: "cint \<Rightarrow> Sequence \<Rightarrow> Sequence option" where
  "setDuration d s = (if m_curPoint s < 0 then Some s else setDuration_pos (m_curPoint s) d s)"

definition setTimeToTarget_pos :: "int \<Rightarrow> cint \<Rightarrow> Sequence \<Rightarrow> Sequence option" where
  "setTimeToTarget_pos pos t s =
     (if \<not> isValid s then Some s
      else case elem_at (m_sequence s) pos of
        None \<Rightarrow> None
      | Some sp \<Rightarrow>
          let nv = std_min_int (timeToTarget (m_max s)) (std_max_int (timeToTarget (m_min s)) t);
              s1 = s\<lparr>m_sequence := (m_sequence s)[nat pos := sp\<lparr>timeToTarget := nv\<rparr>]\<rparr>
          in if timeToTarget sp = nv then Some s1 else Some (signalChange pos s1))"

definition setTimeToTarget :: "cint \<Rightarrow> Sequence \<Rightarrow> Sequence option" where
  "setTimeToTarget t s =
     (if m_curPoint s < 0 then Some s else setTimeToTarget_pos (m_curPoint s) t s)"

text \<open>The read accessors of the current point. \<^verbatim>\<open>point()\<close> is \<^verbatim>\<open>m_sequence[m_curPoint]\<close>
  with no test of the cursor; the three scalar accessors test \<^verbatim>\<open>m_curPoint < 0\<close>
  first.\<close>

definition point_cur :: "Sequence \<Rightarrow> SequencePoint option" where
  "point_cur s = elem_at (m_sequence s) (m_curPoint s)"

definition pointCoordinate_pos :: "Sequence \<Rightarrow> int \<Rightarrow> int \<Rightarrow> real option" where
  "pointCoordinate_pos s pos c =
     (case elem_at (m_sequence s) pos of None \<Rightarrow> None | Some sp \<Rightarrow> elem_at (point sp) c)"

definition pointCoordinate :: "Sequence \<Rightarrow> int \<Rightarrow> real option" where
  "pointCoordinate s c = (if m_curPoint s < 0 then Some 0 else pointCoordinate_pos s (m_curPoint s) c)"

definition pointDuration_pos :: "Sequence \<Rightarrow> int \<Rightarrow> cint option" where
  "pointDuration_pos s pos = map_option duration (elem_at (m_sequence s) pos)"

definition pointDuration :: "Sequence \<Rightarrow> cint option" where
  "pointDuration s = (if m_curPoint s < 0 then Some 0 else pointDuration_pos s (m_curPoint s))"

definition pointTimeToTarget_pos :: "Sequence \<Rightarrow> int \<Rightarrow> cint option" where
  "pointTimeToTarget_pos s pos = map_option timeToTarget (elem_at (m_sequence s) pos)"

definition pointTimeToTarget :: "Sequence \<Rightarrow> cint option" where
  "pointTimeToTarget s =
     (if m_curPoint s < 0 then Some 0 else pointTimeToTarget_pos s (m_curPoint s))"

text \<open>One call of a mutator, for statements about any call and any series of calls.\<close>

datatype call =
    SetCurPoint int
  | InsertAfterCurrent
  | InsertBeforeCurrent
  | Append
  | RemoveCurrent
  | Clear
  | SetPointPos int SequencePoint
  | SetPoint SequencePoint
  | SetPointCoordinatePos int int real
  | SetPointCoordinate int real
  | SetDurationPos int cint
  | SetDuration cint
  | SetTimeToTargetPos int cint
  | SetTimeToTarget cint

fun exec :: "SequencePoint \<Rightarrow> call \<Rightarrow> Sequence \<Rightarrow> Sequence option" where
  "exec dflt (SetCurPoint p) s = Some (setCurPoint p s)"
| "exec dflt InsertAfterCurrent s = insertAfterCurrent dflt s"
| "exec dflt InsertBeforeCurrent s = insertBeforeCurrent dflt s"
| "exec dflt Append s = append_seq dflt s"
| "exec dflt RemoveCurrent s = removeCurrent s"
| "exec dflt Clear s = Some (clear s)"
| "exec dflt (SetPointPos pos p) s = setPoint_pos pos p s"
| "exec dflt (SetPoint p) s = setPoint p s"
| "exec dflt (SetPointCoordinatePos pos c v) s = setPointCoordinate_pos pos c v s"
| "exec dflt (SetPointCoordinate c v) s = setPointCoordinate c v s"
| "exec dflt (SetDurationPos pos d) s = setDuration_pos pos d s"
| "exec dflt (SetDuration d) s = setDuration d s"
| "exec dflt (SetTimeToTargetPos pos t) s = setTimeToTarget_pos pos t s"
| "exec dflt (SetTimeToTarget t) s = setTimeToTarget t s"

section \<open>Persistence\<close>

text \<open>A JSON value as \<^verbatim>\<open>QJsonValue\<close> has it: every number is a double. A
  \<^verbatim>\<open>QJsonDocument\<close> is an array, an object or the null document \<open>JNull\<close>.\<close>

datatype json =
    JNull
  | JBool bool
  | JNumber real
  | JString string
  | JArray "json list"
  | JObject "(string \<times> json) list"

definition json_number :: "json \<Rightarrow> real option" where
  "json_number j = (case j of JNumber r \<Rightarrow> Some r | _ \<Rightarrow> None)"

definition json_int :: "json \<Rightarrow> cint option" where
  "json_int j =
     (case j of
        JNumber r \<Rightarrow>
          if r = of_int \<lfloor>r\<rfloor> \<and> - (2 ^ 31) \<le> \<lfloor>r\<rfloor> \<and> \<lfloor>r\<rfloor> < 2 ^ 31
          then Some (word_of_int \<lfloor>r\<rfloor>) else None
      | _ \<Rightarrow> None)"

definition json_numbers :: "json \<Rightarrow> real list option" where
  "json_numbers j = (case j of JArray xs \<Rightarrow> those (map json_number xs) | _ \<Rightarrow> None)"

text \<open>Modelled from the spec: \<^verbatim>\<open>SequencePoint::fromJson\<close> is not in the source files. It
  parses \<^verbatim>\<open>point\<close> (array of numbers), \<^verbatim>\<open>duration\<close> (int) and \<^verbatim>\<open>timeToTarget\<close> (int) from
  a JSON object and fails if a field is missing or of the wrong type. \<open>None\<close> is the
  result \<^verbatim>\<open>false\<close>; the state the point is left in then is never read by \<^verbatim>\<open>load\<close>.\<close>

definition fromJson :: "(string \<times> json) list \<Rightarrow> SequencePoint option" where
  "fromJson obj =
     (case (map_of obj ''point'', map_of obj ''duration'', map_of obj ''timeToTarget'') of
        (Some pj, Some dj, Some tj) \<Rightarrow>
          (case (json_numbers pj, json_int dj, json_int tj) of
             (Some cs, Some d, Some t) \<Rightarrow> Some \<lparr>point = cs, duration = d, timeToTarget = t\<rparr>
           | _ \<Rightarrow> None)
      | _ \<Rightarrow> None)"

text \<open>Modelled from the spec: \<^verbatim>\<open>SequencePoint::toJson\<close> is not in the source files; it is
  the inverse serialization, to the object \<^verbatim>\<open>{"point": [number, ...], "duration": integer,
  "timeToTarget": integer}\<close>.\<close>

definition toJson :: "SequencePoint \<Rightarrow> json" where
  "toJson p =
     JObject [(''point'', JArray (map JNumber (point p))),
              (''duration'', JNumber (of_int (sint (duration p)))),
              (''timeToTarget'', JNumber (of_int (sint (timeToTarget p))))]"

text \<open>\<^verbatim>\<open>save()\<close>: the document and the object with its \<^verbatim>\<open>mutable\<close> flag cleared.\<close>

definition save :: "Sequence \<Rightarrow> json \<times> Sequence" where
  "save s =
     (if \<not> isValid s then (JNull, s)
      else (JArray (toJson (m_min s) # toJson (m_max s) # map toJson (m_sequence s)),
            s\<lparr>m_isModified := False\<rparr>))"

text \<open>\<^verbatim>\<open>save(filename)\<close>: what the file system answers is an input, \<open>open_ok\<close> for
  \<^verbatim>\<open>f.open(...)\<close> and \<open>write_ok\<close> for \<^verbatim>\<open>f.error() == QFileDevice::NoError\<close> after the
  write.\<close>

definition save_file :: "bool \<Rightarrow> bool \<Rightarrow> Sequence \<Rightarrow> bool \<times> Sequence" where
  "save_file open_ok write_ok s =
     (if \<not> isValid s then (False, s)
      else
        let oldIsModified = m_isModified s;
            s1 = snd (save s);
            s2 = s1\<lparr>m_isModified := oldIsModified\<rparr>
        in if \<not> open_ok then (False, s2)
           else if \<not> write_ok then (False, s2)
           else (True, s2\<lparr>m_isModified := False\<rparr>))"

text \<open>The locals of the first loop of \<^verbatim>\<open>load\<close>. \<^verbatim>\<open>error = true; break\<close> is the result
  \<open>None\<close> of the loop.\<close>

record load_state =
  ls_list :: "SequencePoint list"
  ls_minPoint :: SequencePoint
  ls_maxPoint :: SequencePoint
  ls_dim :: int
  ls_index :: int

fun load_loop :: "json list \<Rightarrow> load_state \<Rightarrow> load_state option" where
  "load_loop [] st = Some st"
| "load_loop (jsp # rest) st =
     (case jsp of
        JObject obj \<Rightarrow>
          (case fromJson obj of
             None \<Rightarrow> None
           | Some sp \<Rightarrow>
               let st1 = (if ls_index st = 0 then st\<lparr>ls_minPoint := sp\<rparr>
                          else if ls_index st = 1 then st\<lparr>ls_maxPoint := sp\<rparr>
                          else st\<lparr>ls_list := ls_list st @ [sp]\<rparr>)
               in if ls_dim st1 \<noteq> -1 \<and> ls_dim st1 \<noteq> int (length (point sp)) then None
                  else load_loop rest
                         (st1\<lparr>ls_dim := int (length (point sp)), ls_index := ls_index st1 + 1\<rparr>))
      | _ \<Rightarrow> None)"

text \<open>The second loop: \<^verbatim>\<open>s->m_sequence.append(s->validatePoint(sp))\<close> for each parsed
  point.\<close>

fun append_validated :: "Sequence \<Rightarrow> SequencePoint list \<Rightarrow> Sequence option" where
  "append_validated s [] = Some s"
| "append_validated s (sp # sps) =
     (case validatePoint s sp False of
        None \<Rightarrow> None
      | Some v \<Rightarrow> append_validated (s\<lparr>m_sequence := m_sequence s @ [v]\<rparr>) sps)"

definition load :: "SequencePoint \<Rightarrow> json \<Rightarrow> Sequence option" where
  "load dflt doc =
     (case doc of
        JArray arr \<Rightarrow>
          (case load_loop arr
                  \<lparr>ls_list = [], ls_minPoint = dflt, ls_maxPoint = dflt, ls_dim = -1, ls_index = 0\<rparr> of
             None \<Rightarrow> Some (Sequence_default dflt)
           | Some st \<Rightarrow>
               if ls_index st < 1 then Some (Sequence_default dflt)
               else
                 (case append_validated
                         (Sequence_ctor (nat (ls_dim st)) (ls_minPoint st) (ls_maxPoint st))
                         (ls_list st) of
                    None \<Rightarrow> None
                  | Some s \<Rightarrow> Some (if ls_list st \<noteq> [] then s\<lparr>m_curPoint := 0\<rparr> else s)))
      | _ \<Rightarrow> Some (Sequence_default dflt))"

text \<open>\<^verbatim>\<open>load(filename)\<close>: \<open>None\<close> for a file that cannot be opened, else the document
  read from it.\<close>

definition load_file :: "SequencePoint \<Rightarrow> json option \<Rightarrow> Sequence option" where
  "load_file dflt content =
     (case content of None \<Rightarrow> Some (Sequence_default dflt) | Some doc \<Rightarrow> load dflt doc)"

section \<open>Invariants and specification predicates\<close>

text \<open>What the constructor establishes for the bounds: both have \<^verbatim>\<open>m_pointDim\<close>
  coordinates.\<close>

definition wf_bounds :: "Sequence \<Rightarrow> bool" where
  "wf_bounds s =
     (length (point (m_min s)) = m_pointDim s \<and> length (point (m_max s)) = m_pointDim s)"

text \<open>The bounds are ordered: \<^verbatim>\<open>min.point[i] <= max.point[i]\<close> for every coordinate, and
  the same for the two durations and the two timeToTarget values.\<close>

definition bounds_ordered :: "Sequence \<Rightarrow> bool" where
  "bounds_ordered s =
     (list_all2 (\<le>) (point (m_min s)) (point (m_max s)) \<and>
      word_sle (duration (m_min s)) (duration (m_max s)) \<and>
      word_sle (timeToTarget (m_min s)) (timeToTarget (m_max s)))"

text \<open>A point is well-formed and within the bounds of \<open>s\<close>: it has \<^verbatim>\<open>m_pointDim\<close>
  coordinates, each within the inclusive range of the bounds, and so are its duration
  and timeToTarget.\<close>

definition in_bounds :: "Sequence \<Rightarrow> SequencePoint \<Rightarrow> bool" where
  "in_bounds s p =
     (length (point p) = m_pointDim s \<and>
      list_all2 (\<le>) (point (m_min s)) (point p) \<and>
      list_all2 (\<le>) (point p) (point (m_max s)) \<and>
      word_sle (duration (m_min s)) (duration p) \<and>
      word_sle (duration p) (duration (m_max s)) \<and>
      word_sle (timeToTarget (m_min s)) (timeToTarget p) \<and>
      word_sle (timeToTarget p) (timeToTarget (m_max s)))"

text \<open>The cursor is -1 on an empty list and an index of the list otherwise.\<close>

definition cursor_ok :: "Sequence \<Rightarrow> bool" where
  "cursor_ok s =
     (if m_sequence s = [] then m_curPoint s = -1
      else 0 \<le> m_curPoint s \<and> m_curPoint s \<le> int (length (m_sequence s)) - 1)"

text \<open>The explicit indices of a call are in range: the position is an index of the
  list and the coordinate an index of the points.\<close>

fun args_in_range :: "Sequence \<Rightarrow> call \<Rightarrow> bool" where
  "args_in_range s (SetPointPos pos p) = (0 \<le> pos \<and> pos < int (length (m_sequence s)))"
| "args_in_range s (SetPointCoordinatePos pos c v) =
     (0 \<le> pos \<and> pos < int (length (m_sequence s)) \<and> 0 \<le> c \<and> c < int (m_pointDim s))"
| "args_in_range s (SetPointCoordinate c v) = (0 \<le> c \<and> c < int (m_pointDim s))"
| "args_in_range s (SetDurationPos pos d) = (0 \<le> pos \<and> pos < int (length (m_sequence s)))"
| "args_in_range s (SetTimeToTargetPos pos t) = (0 \<le> pos \<and> pos < int (length (m_sequence s)))"
| "args_in_range s c = True"

text \<open>The states a program can reach: a constructed Sequence, the result of
  \<^verbatim>\<open>load\<close>, and any of these after calls of mutators that stay within the lists.\<close>

inductive reachable :: "SequencePoint \<Rightarrow> Sequence \<Rightarrow> bool" for dflt :: SequencePoint where
  constructed: "reachable dflt (Sequence_ctor pointDim minVals maxVals)"
| loaded: "load dflt doc = Some s \<Longrightarrow> reachable dflt s"
| called: "reachable dflt s \<Longrightarrow> exec dflt c s = Some s' \<Longrightarrow> reachable dflt s'"

text \<open>An element of the loaded array as \<^verbatim>\<open>load\<close> reads it: an object that
  \<^verbatim>\<open>fromJson\<close> accepts.\<close>

definition parse_elem :: "json \<Rightarrow> SequencePoint option" where
  "parse_elem e = (case e of JObject obj \<Rightarrow> fromJson obj | _ \<Rightarrow> None)"

definition is_object :: "json \<Rightarrow> bool" where
  "is_object e = (case e of JObject obj \<Rightarrow> True | _ \<Rightarrow> False)"

definition elem_dim :: "json \<Rightarrow> nat option" where
  "elem_dim e = map_option (\<lambda>p. length (point p)) (parse_elem e)"

text \<open>The failure condition of \<^verbatim>\<open>load\<close> in the words of the specification: the
  document is not an array, or some element is not an object, or some element fails
  \<^verbatim>\<open>fromJson\<close>, or the point dimension of some element differs from that of the first
  element, or the array has fewer than one element.\<close>

definition load_fails_spec :: "json \<Rightarrow> bool" where
  "load_fails_spec doc =
     (case doc of
        JArray arr \<Rightarrow>
          list_ex (\<lambda>e. \<not> is_object e) arr \<or>
          list_ex (\<lambda>e. parse_elem e = None) arr \<or>
          list_ex (\<lambda>e. elem_dim e \<noteq> elem_dim (hd arr)) arr \<or>
          length arr < 1
      | _ \<Rightarrow> True)"

text \<open>The default invalid Sequence as the specification describes it.\<close>

definition default_invalid :: "Sequence \<Rightarrow> bool" where
  "default_invalid s =
     (m_pointDim s = 0 \<and> m_sequence s = [] \<and> m_curPoint s = -1 \<and> \<not> m_isModified s)"

text \<open>The array \<open>arr\<close> parses to the points \<open>ps\<close>: every element is an object that
  \<^verbatim>\<open>fromJson\<close> accepts, there is at least one, and all have the dimension of the first.\<close>

definition well_formed :: "json list \<Rightarrow> SequencePoint list \<Rightarrow> bool" where
  "well_formed arr ps =
     (map parse_elem arr = map Some ps \<and> ps \<noteq> [] \<and>
      (\<forall>p\<in>set ps. length (point p) = length (point (hd ps))))"

section \<open>Concrete values\<close>

text \<open>A default-constructed point for the concrete evaluations: no coordinates, zero
  duration and zero timeToTarget.\<close>

definition dflt0 :: SequencePoint where
  "dflt0 = \<lparr>point = [], duration = 0, timeToTarget = 0\<rparr>"

text \<open>The empty Sequence of the specification's insertion example: bounds
  \<^verbatim>\<open>{0,0,0; dur 0; ttt 0}\<close> and \<^verbatim>\<open>{10,10,10; dur 100; ttt 100}\<close>.\<close>

definition ex_min :: SequencePoint where
  "ex_min = \<lparr>point = [0, 0, 0], duration = 0, timeToTarget = 0\<rparr>"

definition ex_max :: SequencePoint where
  "ex_max = \<lparr>point = [10, 10, 10], duration = 100, timeToTarget = 100\<rparr>"

definition ex_seq :: Sequence where
  "ex_seq = Sequence_ctor 3 ex_min ex_max"

definition ex_point :: SequencePoint where
  "ex_point = \<lparr>point = [5, 5, 5], duration = 50, timeToTarget = 0\<rparr>"

text \<open>The example Sequence holding the one point \<open>ex_point\<close>, with the cursor on it.\<close>

definition ex_seq1 :: Sequence where
  "ex_seq1 = ex_seq\<lparr>m_sequence := [ex_point], m_curPoint := 0\<rparr>"

section \<open>Lemmas\<close>

subsection \<open>Frame lemmas\<close>

lemma emit_fields [simp]:
  "m_pointDim (emit e s) = m_pointDim s" "m_min (emit e s) = m_min s" "m_max (emit e s) = m_max s"
  "m_sequence (emit e s) = m_sequence s" "m_curPoint (emit e s) = m_curPoint s"
  "m_isModified (emit e s) = m_isModified s" "emitted (emit e s) = emitted s @ [e]"
  by (simp_all add: emit_def)

lemma sequenceModified_fields [simp]:
  "m_pointDim (sequenceModified s) = m_pointDim s" "m_min (sequenceModified s) = m_min s"
  "m_max (sequenceModified s) = m_max s" "m_sequence (sequenceModified s) = m_sequence s"
  "m_curPoint (sequenceModified s) = m_curPoint s" "m_isModified (sequenceModified s)"
  by (simp_all add: sequenceModified_def)

lemma signalChange_fields [simp]:
  "m_pointDim (signalChange pos s) = m_pointDim s" "m_min (signalChange pos s) = m_min s"
  "m_max (signalChange pos s) = m_max s" "m_sequence (signalChange pos s) = m_sequence s"
  "m_curPoint (signalChange pos s) = m_curPoint s" "m_isModified (signalChange pos s)"
  by (simp_all add: signalChange_def Let_def)

lemma setCurPoint_fields [simp]:
  "m_pointDim (setCurPoint p s) = m_pointDim s" "m_min (setCurPoint p s) = m_min s"
  "m_max (setCurPoint p s) = m_max s" "m_sequence (setCurPoint p s) = m_sequence s"
  by (simp_all add: setCurPoint_def Let_def)

lemma clear_fields [simp]:
  "m_pointDim (clear s) = m_pointDim s" "m_min (clear s) = m_min s" "m_max (clear s) = m_max s"
  by (simp_all add: clear_def Let_def)

lemmas mutator_defs =
  insertAfterCurrent_def insertBeforeCurrent_def append_seq_def removeCurrent_def
  setPoint_pos_def setPoint_def setPointCoordinate_pos_def setPointCoordinate_def
  setDuration_pos_def setDuration_def setTimeToTarget_pos_def setTimeToTarget_def

lemma exec_frame:
  "exec dflt c s = Some s' \<Longrightarrow>
     m_pointDim s' = m_pointDim s \<and> m_min s' = m_min s \<and> m_max s' = m_max s"
  by (cases c) (auto simp: mutator_defs Let_def split: if_splits option.splits prod.splits)

lemma in_bounds_frame:
  "m_pointDim s' = m_pointDim s \<Longrightarrow> m_min s' = m_min s \<Longrightarrow> m_max s' = m_max s \<Longrightarrow>
     in_bounds s' = in_bounds s"
  by (rule ext) (simp add: in_bounds_def)

subsection \<open>Clamping\<close>

lemma length_resize_coords [simp]: "length (resize_coords n xs) = n"
  by (simp add: resize_coords_def)

lemma resize_coords_id: "length xs = n \<Longrightarrow> resize_coords n xs = xs"
  by (simp add: resize_coords_def)

lemma clampCoords_eq:
  "length mn = length vs \<Longrightarrow> length mx = length vs \<Longrightarrow>
   clampCoords mn mx vs = Some (map2 (\<lambda>a (b, v). std_min b (std_max a v)) mn (zip mx vs))"
  by (induction mn mx vs rule: clampCoords.induct) auto

lemma clampCoords_length: "clampCoords mn mx vs = Some cs \<Longrightarrow> length cs = length vs"
  by (induction mn mx vs arbitrary: cs rule: clampCoords.induct) auto

lemma clampCoords_lower:
  "clampCoords mn mx vs = Some cs \<Longrightarrow> length mn = length vs \<Longrightarrow> list_all2 (\<le>) mn mx \<Longrightarrow>
     list_all2 (\<le>) mn cs"
  by (induction mn mx vs arbitrary: cs rule: clampCoords.induct)
     (auto simp: std_min_def std_max_def)

lemma clampCoords_upper:
  "clampCoords mn mx vs = Some cs \<Longrightarrow> length mn = length vs \<Longrightarrow> list_all2 (\<le>) mn mx \<Longrightarrow>
     list_all2 (\<le>) cs mx"
  by (induction mn mx vs arbitrary: cs rule: clampCoords.induct)
     (auto simp: std_min_def std_max_def)

lemma clampCoords_id:
  "list_all2 (\<le>) mn vs \<Longrightarrow> list_all2 (\<le>) vs mx \<Longrightarrow> clampCoords mn mx vs = Some vs"
  by (induction mn mx vs rule: clampCoords.induct) (auto simp: std_min_def std_max_def)

lemma midCoords_eq:
  "length mx = n \<Longrightarrow> length mn = n \<Longrightarrow>
   midCoords n mx mn = Some (map2 (\<lambda>b a. (b + a) / 2) mx mn)"
  by (induction n mx mn rule: midCoords.induct) auto

lemma std_clamp_int_bounds:
  "word_sle a b \<Longrightarrow>
     word_sle a (std_min_int b (std_max_int a v)) \<and> word_sle (std_min_int b (std_max_int a v)) b"
  by (auto simp add: std_min_int_def std_max_int_def word_sle_eq word_sless_alt)

lemma std_clamp_int_id:
  "word_sle a v \<Longrightarrow> word_sle v b \<Longrightarrow> std_min_int b (std_max_int a v) = v"
  by (auto simp add: std_min_int_def std_max_int_def word_sle_eq word_sless_alt
      word_eq_iff_signed [where ?'a = int])

lemma validatePoint_in_bounds:
  assumes "validatePoint s p False = Some v" and "wf_bounds s" and "bounds_ordered s"
  shows "in_bounds s v"
proof -
  from assms(1) obtain cs where
    cs: "clampCoords (point (m_min s)) (point (m_max s)) (resize_coords (m_pointDim s) (point p)) = Some cs"
    and v: "v = \<lparr>point = cs,
        duration = std_min_int (duration (m_max s)) (std_max_int (duration (m_min s)) (duration p)),
        timeToTarget = std_min_int (timeToTarget (m_max s))
           (std_max_int (timeToTarget (m_min s)) (timeToTarget p))\<rparr>"
    by (cases p) (auto simp: validatePoint_def Let_def split: option.splits)
  from assms(3) have ord: "list_all2 (\<le>) (point (m_min s)) (point (m_max s))"
    by (simp add: bounds_ordered_def)
  have len: "length (point (m_min s)) = length (resize_coords (m_pointDim s) (point p))"
    using assms(2) by (simp add: wf_bounds_def)
  have "length cs = m_pointDim s"
    using clampCoords_length [OF cs] by simp
  moreover have "list_all2 (\<le>) (point (m_min s)) cs"
    by (rule clampCoords_lower [OF cs len ord])
  moreover have "list_all2 (\<le>) cs (point (m_max s))"
    by (rule clampCoords_upper [OF cs len ord])
  ultimately show ?thesis
    using assms(3) std_clamp_int_bounds
    by (simp add: in_bounds_def v bounds_ordered_def)
qed

lemma validatePoint_total:
  assumes "wf_bounds s"
  shows "\<exists>v. validatePoint s p False = Some v"
  using assms
  by (simp add: validatePoint_def Let_def wf_bounds_def clampCoords_eq)

lemma validatePoint_id:
  assumes "in_bounds s p"
  shows "validatePoint s p False = Some p"
  using assms
  by (simp add: validatePoint_def Let_def in_bounds_def resize_coords_id clampCoords_id
      std_clamp_int_id)

lemma defaultSequencePoint_total:
  "wf_bounds s \<Longrightarrow> \<exists>d. defaultSequencePoint dflt s = Some d"
  by (simp add: defaultSequencePoint_def wf_bounds_def midCoords_eq)

lemma newPoint_in_bounds:
  "newPoint dflt s = Some v \<Longrightarrow> wf_bounds s \<Longrightarrow> bounds_ordered s \<Longrightarrow> in_bounds s v"
  by (auto simp: newPoint_def split: if_splits option.splits intro: validatePoint_in_bounds)

lemma newPoint_total:
  assumes "wf_bounds s" and "cursor_ok s"
  shows "\<exists>v. newPoint dflt s = Some v"
proof (cases "m_curPoint s = -1")
  case True
  then show ?thesis
    using defaultSequencePoint_total [OF assms(1), of dflt] validatePoint_total [OF assms(1)]
    by (auto simp: newPoint_def)
next
  case False
  with assms(2) have "0 \<le> m_curPoint s \<and> m_curPoint s < int (length (m_sequence s))"
    by (auto simp: cursor_ok_def split: if_splits)
  then show ?thesis
    using False validatePoint_total [OF assms(1)]
    by (auto simp: newPoint_def elem_at_def)
qed


subsection \<open>Points stay within the bounds\<close>

lemma list_all_qlist_insert:
  "list_all P xs \<Longrightarrow> P v \<Longrightarrow> list_all P (qlist_insert i v xs)"
  by (auto simp: qlist_insert_def list_all_iff dest: in_set_takeD in_set_dropD)

lemma list_all_removeAt:
  "removeAt i xs = Some ys \<Longrightarrow> list_all P xs \<Longrightarrow> list_all P ys"
  by (auto simp: removeAt_def list_all_iff split: if_splits)
     (blast dest: in_set_takeD in_set_dropD)+

lemma list_all_update:
  "list_all P xs \<Longrightarrow> P v \<Longrightarrow> list_all P (xs[i := v])"
  by (auto simp: list_all_iff dest: set_update_subset_insert [THEN subsetD])

lemma elem_at_list_all: "elem_at xs i = Some x \<Longrightarrow> list_all P xs \<Longrightarrow> P x"
  by (auto simp: elem_at_def list_all_iff split: if_splits)

lemma in_bounds_coordinate:
  assumes "in_bounds s sp" and "bounds_ordered s"
    and "elem_at (point (m_max s)) c = Some mx" and "elem_at (point (m_min s)) c = Some mn"
  shows "in_bounds s (sp\<lparr>point := (point sp)[nat c := std_min mx (std_max mn v)]\<rparr>)"
proof -
  let ?nv = "std_min mx (std_max mn v)"
  from assms(3,4) have mx: "mx = point (m_max s) ! nat c" and mn: "mn = point (m_min s) ! nat c"
    and c: "nat c < length (point (m_max s))" "nat c < length (point (m_min s))"
    by (auto simp: elem_at_def split: if_splits)
  from assms(2) have "list_all2 (\<le>) (point (m_min s)) (point (m_max s))"
    by (simp add: bounds_ordered_def)
  with c have "mn \<le> mx"
    unfolding mx mn by (simp add: list_all2_nthD)
  then have nv: "mn \<le> ?nv" "?nv \<le> mx"
    by (simp_all add: std_min_def std_max_def)
  from assms(1) have lo: "list_all2 (\<le>) (point (m_min s)) (point sp)"
    and hi: "list_all2 (\<le>) (point sp) (point (m_max s))"
    by (simp_all add: in_bounds_def)
  have "list_all2 (\<le>) ((point (m_min s))[nat c := mn]) ((point sp)[nat c := ?nv])"
    by (rule list_all2_update_cong [OF lo nv(1)])
  then have lo': "list_all2 (\<le>) (point (m_min s)) ((point sp)[nat c := ?nv])"
    by (simp add: mn)
  have "list_all2 (\<le>) ((point sp)[nat c := ?nv]) ((point (m_max s))[nat c := mx])"
    by (rule list_all2_update_cong [OF hi nv(2)])
  then have hi': "list_all2 (\<le>) ((point sp)[nat c := ?nv]) (point (m_max s))"
    by (simp add: mx)
  from assms(1) lo' hi' show ?thesis
    by (simp add: in_bounds_def)
qed

lemma in_bounds_duration:
  "in_bounds s sp \<Longrightarrow> bounds_ordered s \<Longrightarrow>
     in_bounds s (sp\<lparr>duration := std_min_int (duration (m_max s)) (std_max_int (duration (m_min s)) d)\<rparr>)"
  using std_clamp_int_bounds by (simp add: in_bounds_def bounds_ordered_def)

lemma in_bounds_timeToTarget:
  "in_bounds s sp \<Longrightarrow> bounds_ordered s \<Longrightarrow>
     in_bounds s (sp\<lparr>timeToTarget :=
        std_min_int (timeToTarget (m_max s)) (std_max_int (timeToTarget (m_min s)) t)\<rparr>)"
  using std_clamp_int_bounds by (simp add: in_bounds_def bounds_ordered_def)

lemma insertAfterCurrent_points:
  assumes "insertAfterCurrent dflt s = Some s'" "wf_bounds s" "bounds_ordered s"
    "list_all (in_bounds s) (m_sequence s)"
  shows "list_all (in_bounds s) (m_sequence s')"
  using assms
  by (auto simp: insertAfterCurrent_def Let_def split: if_splits option.splits
      intro!: list_all_qlist_insert dest: newPoint_in_bounds)

lemma insertBeforeCurrent_points:
  assumes "insertBeforeCurrent dflt s = Some s'" "wf_bounds s" "bounds_ordered s"
    "list_all (in_bounds s) (m_sequence s)"
  shows "list_all (in_bounds s) (m_sequence s')"
  using assms
  by (auto simp: insertBeforeCurrent_def Let_def split: if_splits option.splits
      intro!: list_all_qlist_insert dest: newPoint_in_bounds)

lemma append_seq_points:
  assumes "append_seq dflt s = Some s'" "wf_bounds s" "bounds_ordered s"
    "list_all (in_bounds s) (m_sequence s)"
  shows "list_all (in_bounds s) (m_sequence s')"
  using assms
  by (auto simp: append_seq_def Let_def split: if_splits option.splits dest: newPoint_in_bounds)

lemma removeCurrent_points:
  assumes "removeCurrent s = Some s'" "list_all (in_bounds s) (m_sequence s)"
  shows "list_all (in_bounds s) (m_sequence s')"
  using assms
  by (auto simp: removeCurrent_def Let_def split: if_splits option.splits dest: list_all_removeAt)

lemma clear_points: "list_all (in_bounds s) (m_sequence s) \<Longrightarrow> list_all (in_bounds s) (m_sequence (clear s))"
  by (simp add: clear_def Let_def)

lemma setPoint_pos_points:
  assumes "setPoint_pos pos p s = Some s'" "wf_bounds s" "bounds_ordered s"
    "list_all (in_bounds s) (m_sequence s)"
  shows "list_all (in_bounds s) (m_sequence s')"
  using assms
  by (auto simp: setPoint_pos_def Let_def split: if_splits option.splits
      intro!: list_all_update dest: validatePoint_in_bounds)

lemma setPointCoordinate_pos_points:
  assumes "setPointCoordinate_pos pos c v s = Some s'" "bounds_ordered s"
    "list_all (in_bounds s) (m_sequence s)"
  shows "list_all (in_bounds s) (m_sequence s')"
  using assms
  by (auto simp: setPointCoordinate_pos_def Let_def split: if_splits option.splits
      intro!: list_all_update in_bounds_coordinate dest: elem_at_list_all)

lemma setDuration_pos_points:
  assumes "setDuration_pos pos d s = Some s'" "bounds_ordered s"
    "list_all (in_bounds s) (m_sequence s)"
  shows "list_all (in_bounds s) (m_sequence s')"
  using assms
  by (auto simp: setDuration_pos_def Let_def split: if_splits option.splits
      intro!: list_all_update in_bounds_duration dest: elem_at_list_all)

lemma setTimeToTarget_pos_points:
  assumes "setTimeToTarget_pos pos t s = Some s'" "bounds_ordered s"
    "list_all (in_bounds s) (m_sequence s)"
  shows "list_all (in_bounds s) (m_sequence s')"
  using assms
  by (auto simp: setTimeToTarget_pos_def Let_def split: if_splits option.splits
      intro!: list_all_update in_bounds_timeToTarget dest: elem_at_list_all)

lemma exec_points:
  assumes "exec dflt c s = Some s'" "wf_bounds s" "bounds_ordered s"
    "list_all (in_bounds s) (m_sequence s)"
  shows "list_all (in_bounds s) (m_sequence s')"
proof (cases c)
  case (SetCurPoint p) with assms show ?thesis by auto
next
  case InsertAfterCurrent with assms show ?thesis by (auto dest: insertAfterCurrent_points)
next
  case InsertBeforeCurrent with assms show ?thesis by (auto dest: insertBeforeCurrent_points)
next
  case Append with assms show ?thesis by (auto dest: append_seq_points)
next
  case RemoveCurrent with assms show ?thesis by (auto dest: removeCurrent_points)
next
  case Clear with assms show ?thesis by (auto dest: clear_points)
next
  case (SetPointPos pos p) with assms show ?thesis by (auto dest: setPoint_pos_points)
next
  case (SetPoint p) with assms show ?thesis
    by (auto simp: setPoint_def split: if_splits dest: setPoint_pos_points)
next
  case (SetPointCoordinatePos pos c v) with assms show ?thesis
    by (auto dest: setPointCoordinate_pos_points)
next
  case (SetPointCoordinate c v) with assms show ?thesis
    by (auto simp: setPointCoordinate_def split: if_splits dest: setPointCoordinate_pos_points)
next
  case (SetDurationPos pos d) with assms show ?thesis by (auto dest: setDuration_pos_points)
next
  case (SetDuration d) with assms show ?thesis
    by (auto simp: setDuration_def split: if_splits dest: setDuration_pos_points)
next
  case (SetTimeToTargetPos pos t) with assms show ?thesis by (auto dest: setTimeToTarget_pos_points)
next
  case (SetTimeToTarget t) with assms show ?thesis
    by (auto simp: setTimeToTarget_def split: if_splits dest: setTimeToTarget_pos_points)
qed


subsection \<open>The calls return\<close>

lemma elem_at_Some: "0 \<le> i \<Longrightarrow> i < int (length xs) \<Longrightarrow> elem_at xs i = Some (xs ! nat i)"
  by (simp add: elem_at_def)

lemma cursor_ok_index:
  "cursor_ok s \<Longrightarrow> \<not> m_curPoint s < 0 \<Longrightarrow> 0 \<le> m_curPoint s \<and> m_curPoint s < int (length (m_sequence s))"
  by (auto simp: cursor_ok_def split: if_splits)

lemma setPoint_pos_total:
  "wf_bounds s \<Longrightarrow> 0 \<le> pos \<Longrightarrow> pos < int (length (m_sequence s)) \<Longrightarrow>
     \<exists>s'. setPoint_pos pos p s = Some s'"
  using validatePoint_total [of s p]
  by (auto simp: setPoint_pos_def elem_at_Some Let_def)

lemma setPointCoordinate_pos_total:
  assumes "wf_bounds s" "list_all (in_bounds s) (m_sequence s)"
    "0 \<le> pos" "pos < int (length (m_sequence s))" "0 \<le> c" "c < int (m_pointDim s)"
  shows "\<exists>s'. setPointCoordinate_pos pos c v s = Some s'"
proof -
  from assms(2,3,4) have "in_bounds s (m_sequence s ! nat pos)"
    by (simp add: list_all_length)
  then have "length (point (m_sequence s ! nat pos)) = m_pointDim s"
    by (simp add: in_bounds_def)
  with assms show ?thesis
    by (auto simp: setPointCoordinate_pos_def elem_at_Some Let_def wf_bounds_def)
qed

lemma setDuration_pos_total:
  "0 \<le> pos \<Longrightarrow> pos < int (length (m_sequence s)) \<Longrightarrow> \<exists>s'. setDuration_pos pos d s = Some s'"
  by (auto simp: setDuration_pos_def elem_at_Some Let_def)

lemma setTimeToTarget_pos_total:
  "0 \<le> pos \<Longrightarrow> pos < int (length (m_sequence s)) \<Longrightarrow> \<exists>s'. setTimeToTarget_pos pos t s = Some s'"
  by (auto simp: setTimeToTarget_pos_def elem_at_Some Let_def)

lemma removeCurrent_total: "cursor_ok s \<Longrightarrow> \<exists>s'. removeCurrent s = Some s'"
  by (auto simp: removeCurrent_def removeAt_def cursor_ok_def Let_def split: if_splits)

lemma exec_total:
  assumes "wf_bounds s" "list_all (in_bounds s) (m_sequence s)" "cursor_ok s" "args_in_range s c"
  shows "\<exists>s'. exec dflt c s = Some s'"
proof (cases c)
  case InsertAfterCurrent
  with newPoint_total [OF assms(1,3), of dflt] show ?thesis
    by (auto simp: insertAfterCurrent_def Let_def)
next
  case InsertBeforeCurrent
  with newPoint_total [OF assms(1,3), of dflt] show ?thesis
    by (auto simp: insertBeforeCurrent_def Let_def)
next
  case Append
  with newPoint_total [OF assms(1,3), of dflt] show ?thesis
    by (auto simp: append_seq_def Let_def)
next
  case RemoveCurrent
  with removeCurrent_total [OF assms(3)] show ?thesis by simp
next
  case (SetPointPos pos p)
  with assms show ?thesis by (simp add: setPoint_pos_total)
next
  case (SetPoint p)
  with assms cursor_ok_index [OF assms(3)] show ?thesis
    by (simp add: setPoint_def setPoint_pos_total)
next
  case (SetPointCoordinatePos pos c v)
  with assms show ?thesis by (simp add: setPointCoordinate_pos_total)
next
  case (SetPointCoordinate c v)
  with assms cursor_ok_index [OF assms(3)] show ?thesis
    by (simp add: setPointCoordinate_def setPointCoordinate_pos_total)
next
  case (SetDurationPos pos d)
  with assms show ?thesis by (simp add: setDuration_pos_total)
next
  case (SetDuration d)
  with cursor_ok_index [OF assms(3)] show ?thesis
    by (simp add: setDuration_def setDuration_pos_total)
next
  case (SetTimeToTargetPos pos t)
  with assms show ?thesis by (simp add: setTimeToTarget_pos_total)
next
  case (SetTimeToTarget t)
  with cursor_ok_index [OF assms(3)] show ?thesis
    by (simp add: setTimeToTarget_def setTimeToTarget_pos_total)
qed simp_all

subsection \<open>The cursor\<close>

lemma setCurPoint_cursor: "cursor_ok s \<Longrightarrow> cursor_ok (setCurPoint p s)"
  by (auto simp: setCurPoint_def cursor_ok_def Let_def emit_def)

lemma insertAfterCurrent_cursor:
  "insertAfterCurrent dflt s = Some s' \<Longrightarrow> cursor_ok s \<Longrightarrow> cursor_ok s'"
  by (auto simp: insertAfterCurrent_def cursor_ok_def qlist_insert_def Let_def newPoint_def
      elem_at_def split: if_splits option.splits)

lemma insertBeforeCurrent_cursor:
  "insertBeforeCurrent dflt s = Some s' \<Longrightarrow> cursor_ok s \<Longrightarrow> cursor_ok s'"
  by (auto simp: insertBeforeCurrent_def cursor_ok_def qlist_insert_def Let_def newPoint_def
      elem_at_def split: if_splits option.splits)

lemma append_seq_cursor:
  "append_seq dflt s = Some s' \<Longrightarrow> cursor_ok s \<Longrightarrow> cursor_ok s'"
  by (auto simp: append_seq_def cursor_ok_def Let_def split: if_splits option.splits)

lemma removeCurrent_cursor:
  "removeCurrent s = Some s' \<Longrightarrow> cursor_ok s \<Longrightarrow> cursor_ok s'"
  by (auto simp: removeCurrent_def removeAt_def cursor_ok_def Let_def
      split: if_splits option.splits)

lemma clear_cursor: "cursor_ok s \<Longrightarrow> cursor_ok (clear s)"
  by (auto simp: clear_def cursor_ok_def Let_def)

lemma cursor_ok_update:
  "cursor_ok s \<Longrightarrow> m_curPoint s' = m_curPoint s \<Longrightarrow> length (m_sequence s') = length (m_sequence s) \<Longrightarrow>
     cursor_ok s'"
  by (cases "m_sequence s"; cases "m_sequence s'") (auto simp: cursor_ok_def)

lemma setters_cursor:
  "setPoint_pos pos p s = Some s' \<Longrightarrow> cursor_ok s \<Longrightarrow> cursor_ok s'"
  "setPointCoordinate_pos pos c v s = Some s' \<Longrightarrow> cursor_ok s \<Longrightarrow> cursor_ok s'"
  "setDuration_pos pos d s = Some s' \<Longrightarrow> cursor_ok s \<Longrightarrow> cursor_ok s'"
  "setTimeToTarget_pos pos t s = Some s' \<Longrightarrow> cursor_ok s \<Longrightarrow> cursor_ok s'"
  by (auto simp: setPoint_pos_def setPointCoordinate_pos_def setDuration_pos_def
      setTimeToTarget_pos_def Let_def split: if_splits option.splits
      elim!: cursor_ok_update)

lemma exec_cursor:
  assumes "exec dflt c s = Some s'" "cursor_ok s"
  shows "cursor_ok s'"
  using assms
  by (cases c)
     (auto simp: setPoint_def setPointCoordinate_def setDuration_def setTimeToTarget_def
        split: if_splits
        dest: insertAfterCurrent_cursor insertBeforeCurrent_cursor append_seq_cursor
          removeCurrent_cursor setters_cursor
        intro: setCurPoint_cursor clear_cursor)

subsection \<open>Parsing\<close>

lemma those_map_JNumber: "those (map (json_number \<circ> JNumber) xs) = Some xs"
  by (induction xs) (simp_all add: json_number_def)

lemma json_int_of_sint: "json_int (JNumber (of_int (sint (w :: cint)))) = Some w"
proof -
  have "- (2 ^ 31) \<le> sint w" "sint w < 2 ^ 31"
    using sint_ge [of w] sint_lt [of w] by simp_all
  then show ?thesis
    by (simp add: json_int_def del: of_int_sint) simp
qed

lemma fromJson_toJson: "parse_elem (toJson p) = Some p"
  by (simp add: parse_elem_def toJson_def fromJson_def json_numbers_def those_map_JNumber
      json_int_of_sint del: of_int_sint)

lemma load_loop_Cons:
  "load_loop (e # rest) st =
     (case parse_elem e of
        None \<Rightarrow> None
      | Some sp \<Rightarrow>
          let st1 = (if ls_index st = 0 then st\<lparr>ls_minPoint := sp\<rparr>
                     else if ls_index st = 1 then st\<lparr>ls_maxPoint := sp\<rparr>
                     else st\<lparr>ls_list := ls_list st @ [sp]\<rparr>)
          in if ls_dim st1 \<noteq> -1 \<and> ls_dim st1 \<noteq> int (length (point sp)) then None
             else load_loop rest
                    (st1\<lparr>ls_dim := int (length (point sp)), ls_index := ls_index st1 + 1\<rparr>))"
  by (cases e) (simp_all add: parse_elem_def)

declare load_loop.simps(2) [simp del]

lemma load_loop_unparsed:
  "\<exists>e\<in>set arr. parse_elem e = None \<Longrightarrow> load_loop arr st = None"
proof (induction arr arbitrary: st)
  case Nil
  then show ?case by simp
next
  case (Cons e arr)
  show ?case
  proof (cases "parse_elem e")
    case None
    then show ?thesis by (simp add: load_loop_Cons)
  next
    case (Some sp)
    with Cons.prems have "\<exists>e\<in>set arr. parse_elem e = None" by auto
    then show ?thesis
      using Some by (simp add: load_loop_Cons Let_def Cons.IH)
  qed
qed

lemma load_loop_tail:
  "map parse_elem arr = map Some ps \<Longrightarrow> 2 \<le> i \<Longrightarrow>
   load_loop arr \<lparr>ls_list = l, ls_minPoint = mn, ls_maxPoint = mx, ls_dim = int d, ls_index = i\<rparr> =
     (if \<forall>p\<in>set ps. length (point p) = d
      then Some \<lparr>ls_list = l @ ps, ls_minPoint = mn, ls_maxPoint = mx, ls_dim = int d,
                 ls_index = i + int (length ps)\<rparr>
      else None)"
proof (induction arr arbitrary: ps l i)
  case Nil
  then show ?case by simp
next
  case (Cons e arr)
  then obtain p ps' where ps: "ps = p # ps'" and e: "parse_elem e = Some p"
    and rest: "map parse_elem arr = map Some ps'"
    by (cases ps) auto
  show ?case
  proof (cases "length (point p) = d")
    case True
    have "2 \<le> i + 1" using Cons.prems(2) by simp
    from Cons.IH [OF rest this, of "l @ [p]"] Cons.prems(2) True show ?thesis
      by (simp add: load_loop_Cons e ps Let_def add.assoc)
  next
    case False
    with Cons.prems(2) show ?thesis
      by (simp add: load_loop_Cons e ps Let_def)
  qed
qed

lemma load_loop_init:
  assumes "map parse_elem arr = map Some ps"
  shows "load_loop arr \<lparr>ls_list = [], ls_minPoint = dflt, ls_maxPoint = dflt, ls_dim = -1, ls_index = 0\<rparr> =
     (if \<forall>p\<in>set ps. length (point p) = length (point (hd ps))
      then Some \<lparr>ls_list = drop 2 ps,
                 ls_minPoint = (case ps of [] \<Rightarrow> dflt | p # qs \<Rightarrow> p),
                 ls_maxPoint = (case ps of p # q # qs \<Rightarrow> q | _ \<Rightarrow> dflt),
                 ls_dim = (case ps of [] \<Rightarrow> -1 | p # qs \<Rightarrow> int (length (point p))),
                 ls_index = int (length ps)\<rparr>
      else None)"
proof (cases arr)
  case Nil
  with assms show ?thesis by simp
next
  case (Cons e0 arr1)
  with assms obtain p0 ps1 where ps: "ps = p0 # ps1" and e0: "parse_elem e0 = Some p0"
    and rest1: "map parse_elem arr1 = map Some ps1"
    by (cases ps) auto
  show ?thesis
  proof (cases arr1)
    case Nil
    with rest1 Cons show ?thesis
      by (simp add: load_loop_Cons e0 ps Let_def)
  next
    case (Cons e1 arr2)
    with rest1 obtain p1 ps2 where ps1: "ps1 = p1 # ps2" and e1: "parse_elem e1 = Some p1"
      and rest2: "map parse_elem arr2 = map Some ps2"
      by (cases ps1) auto
    have tail: "load_loop arr2 \<lparr>ls_list = [], ls_minPoint = p0, ls_maxPoint = p1,
          ls_dim = int (length (point p0)), ls_index = 2\<rparr> =
       (if \<forall>p\<in>set ps2. length (point p) = length (point p0)
        then Some \<lparr>ls_list = [] @ ps2, ls_minPoint = p0, ls_maxPoint = p1,
               ls_dim = int (length (point p0)), ls_index = 2 + int (length ps2)\<rparr>
        else None)"
      by (rule load_loop_tail [OF rest2]) simp
    show ?thesis
    proof (cases "length (point p1) = length (point p0)")
      case True
      then show ?thesis
        unfolding \<open>arr = e0 # arr1\<close> \<open>arr1 = e1 # arr2\<close> ps ps1
        by (simp add: load_loop_Cons e0 e1 Let_def tail)
    next
      case False
      then show ?thesis
        unfolding \<open>arr = e0 # arr1\<close> \<open>arr1 = e1 # arr2\<close> ps ps1
        by (auto simp add: load_loop_Cons e0 e1 Let_def)
    qed
  qed
qed

lemma validatePoint_frame:
  "m_pointDim s' = m_pointDim s \<Longrightarrow> m_min s' = m_min s \<Longrightarrow> m_max s' = m_max s \<Longrightarrow>
     validatePoint s' p b = validatePoint s p b"
  by (simp add: validatePoint_def Let_def split: option.split)

lemma validatePoint_seq_update [simp]:
  "validatePoint (s\<lparr>m_sequence := xs\<rparr>) p b = validatePoint s p b"
  by (rule validatePoint_frame) simp_all

lemma append_validated_eq:
  "append_validated s ps =
     map_option (\<lambda>vs. s\<lparr>m_sequence := m_sequence s @ vs\<rparr>)
       (those (map (\<lambda>p. validatePoint s p False) ps))"
proof (induction ps arbitrary: s)
  case Nil
  then show ?case by simp
next
  case (Cons p ps)
  show ?case
  proof (cases "validatePoint s p False")
    case None
    then show ?thesis by simp
  next
    case (Some v)
    then show ?thesis
      by (simp add: Cons.IH option.map_comp comp_def)
  qed
qed

lemma those_map_Some_iff:
  "those (map f xs) = Some ys \<longleftrightarrow> list_all2 (\<lambda>x y. f x = Some y) xs ys"
proof (induction xs arbitrary: ys)
  case Nil
  then show ?case by auto
next
  case (Cons x xs)
  then show ?case
    by (cases ys) (auto split: option.splits)
qed

lemma those_map_total:
  "\<forall>x\<in>set xs. \<exists>y. f x = Some y \<Longrightarrow> \<exists>ys. those (map f xs) = Some ys"
  by (induction xs) auto

lemma wf_bounds_ctor: "wf_bounds (Sequence_ctor n mn mx)"
  by (simp add: wf_bounds_def Sequence_ctor_def)

text \<open>The Sequence that load constructs from the parsed elements.\<close>

lemma load_parsed:
  assumes parsed: "map parse_elem arr = map Some ps" and ne: "ps \<noteq> []"
    and dims: "\<forall>p\<in>set ps. length (point p) = length (point (hd ps))"
  shows "\<exists>vs. load dflt (JArray arr) =
           Some ((Sequence_ctor (length (point (hd ps))) (hd ps)
                    (case ps of p # q # qs \<Rightarrow> q | _ \<Rightarrow> dflt))
                 \<lparr>m_sequence := vs, m_curPoint := (if drop 2 ps \<noteq> [] then 0 else -1)\<rparr>) \<and>
         list_all2 (\<lambda>p v. validatePoint (Sequence_ctor (length (point (hd ps))) (hd ps)
                    (case ps of p # q # qs \<Rightarrow> q | _ \<Rightarrow> dflt)) p False = Some v) (drop 2 ps) vs"
proof -
  let ?init = "Sequence_ctor (length (point (hd ps))) (hd ps) (case ps of p # q # qs \<Rightarrow> q | _ \<Rightarrow> dflt)"
  obtain vs where vs: "those (map (\<lambda>p. validatePoint ?init p False) (drop 2 ps)) = Some vs"
    using those_map_total [of "drop 2 ps" "\<lambda>p. validatePoint ?init p False"]
      validatePoint_total [OF wf_bounds_ctor]
    by blast
  from ne obtain p0 ps1 where ps: "ps = p0 # ps1"
    by (cases ps) auto
  have empty: "m_sequence ?init = []" "m_curPoint ?init = -1"
    by (simp_all add: Sequence_ctor_def)
  have "load dflt (JArray arr) = Some (?init\<lparr>m_sequence := vs, m_curPoint := (if drop 2 ps \<noteq> [] then 0 else -1)\<rparr>)"
    using dims vs empty
    by (simp add: load_def load_loop_init [OF parsed] ps append_validated_eq)
  moreover have "list_all2 (\<lambda>p v. validatePoint ?init p False = Some v) (drop 2 ps) vs"
    using vs by (simp add: those_map_Some_iff)
  ultimately show ?thesis by blast
qed

lemma cursor_ok_ctor: "cursor_ok (Sequence_ctor n mn mx)"
  by (simp add: cursor_ok_def Sequence_ctor_def)

lemma load_cursor:
  assumes "load dflt doc = Some s"
  shows "cursor_ok s"
proof (cases doc)
  case (JArray arr)
  show ?thesis
  proof (cases "load_loop arr \<lparr>ls_list = [], ls_minPoint = dflt, ls_maxPoint = dflt, ls_dim = -1, ls_index = 0\<rparr>")
    case None
    with assms JArray show ?thesis
      by (auto simp: load_def Sequence_default_def cursor_ok_ctor)
  next
    case (Some st)
    show ?thesis
    proof (cases "ls_index st < 1")
      case True
      with assms JArray Some show ?thesis
        by (auto simp: load_def Sequence_default_def cursor_ok_ctor)
    next
      case False
      let ?init = "Sequence_ctor (nat (ls_dim st)) (ls_minPoint st) (ls_maxPoint st)"
      from assms JArray Some False obtain vs where
        vs: "list_all2 (\<lambda>p v. validatePoint ?init p False = Some v) (ls_list st) vs"
        and s: "s = (if ls_list st \<noteq> [] then ?init\<lparr>m_sequence := m_sequence ?init @ vs, m_curPoint := 0\<rparr>
                     else ?init\<lparr>m_sequence := m_sequence ?init @ vs\<rparr>)"
        by (auto simp: load_def append_validated_eq those_map_Some_iff split: if_splits option.splits)
      from vs have "length vs = length (ls_list st)"
        by (simp add: list_all2_lengthD)
      then show ?thesis
        by (cases vs) (auto simp: s cursor_ok_def Sequence_ctor_def)
    qed
  qed
qed (use assms in \<open>auto simp: load_def Sequence_default_def cursor_ok_ctor\<close>)

lemma reachable_cursor_ok: "reachable dflt s \<Longrightarrow> cursor_ok s"
proof (induction rule: reachable.induct)
  case (constructed pointDim minVals maxVals)
  show ?case by (rule cursor_ok_ctor)
next
  case (loaded doc s)
  then show ?case by (rule load_cursor)
next
  case (called s c s')
  then show ?case by (blast intro: exec_cursor)
qed

subsection \<open>The failure condition\<close>

lemma parse_elem_object: "parse_elem e = Some p \<Longrightarrow> is_object e"
  by (cases e) (simp_all add: parse_elem_def is_object_def)

lemma map_parse_nth:
  "map parse_elem arr = map Some ps \<Longrightarrow> e \<in> set arr \<Longrightarrow> \<exists>p\<in>set ps. parse_elem e = Some p"
proof (induction arr arbitrary: ps)
  case Nil
  then show ?case by simp
next
  case (Cons a arr)
  then show ?case by (cases ps) auto
qed

lemma map_parse_set:
  "map parse_elem arr = map Some ps \<Longrightarrow> p \<in> set ps \<Longrightarrow> \<exists>e\<in>set arr. parse_elem e = Some p"
proof (induction arr arbitrary: ps)
  case Nil
  then show ?case by simp
next
  case (Cons a arr)
  then show ?case by (cases ps) auto
qed

lemma map_parse_hd:
  "map parse_elem arr = map Some ps \<Longrightarrow> ps \<noteq> [] \<Longrightarrow> parse_elem (hd arr) = Some (hd ps)"
  by (cases arr; cases ps) auto

lemma parsed_exists:
  "\<forall>e\<in>set arr. parse_elem e \<noteq> None \<Longrightarrow> \<exists>ps. map parse_elem arr = map Some ps"
proof (induction arr)
  case Nil
  then show ?case by simp
next
  case (Cons e arr)
  then obtain ps p where "map parse_elem arr = map Some ps" "parse_elem e = Some p"
    by auto
  then have "map parse_elem (e # arr) = map Some (p # ps)" by simp
  then show ?case by blast
qed

lemma load_fails_spec_JArray:
  "load_fails_spec (JArray arr) \<longleftrightarrow>
     (\<exists>e\<in>set arr. \<not> is_object e) \<or> (\<exists>e\<in>set arr. parse_elem e = None) \<or>
     (\<exists>e\<in>set arr. elem_dim e \<noteq> elem_dim (hd arr)) \<or> arr = []"
  by (simp add: load_fails_spec_def list_ex_iff)

lemma load_fails_spec_array:
  "load_fails_spec (JArray arr) \<longleftrightarrow> \<not> (\<exists>ps. well_formed arr ps)"
proof
  assume fails: "load_fails_spec (JArray arr)"
  show "\<not> (\<exists>ps. well_formed arr ps)"
  proof
    assume "\<exists>ps. well_formed arr ps"
    then obtain ps where parsed: "map parse_elem arr = map Some ps" and ne: "ps \<noteq> []"
      and dims: "\<forall>p\<in>set ps. length (point p) = length (point (hd ps))"
      by (auto simp: well_formed_def)
    have hd: "elem_dim (hd arr) = Some (length (point (hd ps)))"
      by (simp add: elem_dim_def map_parse_hd [OF parsed ne])
    have all: "\<forall>e\<in>set arr. is_object e \<and> parse_elem e \<noteq> None \<and> elem_dim e = elem_dim (hd arr)"
    proof
      fix e assume "e \<in> set arr"
      with map_parse_nth [OF parsed] have "\<exists>p\<in>set ps. parse_elem e = Some p"
        by blast
      then obtain p where "p \<in> set ps" "parse_elem e = Some p"
        by blast
      then have p: "p \<in> set ps" and e: "parse_elem e = Some p" by simp_all
      from e have "elem_dim e = Some (length (point p))"
        by (simp add: elem_dim_def)
      also from dims p have "\<dots> = Some (length (point (hd ps)))"
        by simp
      finally have "elem_dim e = elem_dim (hd arr)"
        by (simp add: hd)
      with e show "is_object e \<and> parse_elem e \<noteq> None \<and> elem_dim e = elem_dim (hd arr)"
        by (simp add: parse_elem_object)
    qed
    from parsed ne have "arr \<noteq> []" by auto
    with fails all show False
      unfolding load_fails_spec_JArray by blast
  qed
next
  assume no: "\<not> (\<exists>ps. well_formed arr ps)"
  show "load_fails_spec (JArray arr)"
  proof (rule ccontr)
    assume ok: "\<not> load_fails_spec (JArray arr)"
    from ok have ne: "arr \<noteq> []"
      unfolding load_fails_spec_JArray by blast
    from ok have parse: "\<forall>e\<in>set arr. parse_elem e \<noteq> None"
      unfolding load_fails_spec_JArray by meson
    from ok have dim: "\<forall>e\<in>set arr. elem_dim e = elem_dim (hd arr)"
      unfolding load_fails_spec_JArray by meson
    from parsed_exists [OF parse] obtain ps where parsed: "map parse_elem arr = map Some ps"
      by blast
    with ne have pne: "ps \<noteq> []" by auto
    have "\<forall>p\<in>set ps. length (point p) = length (point (hd ps))"
    proof
      fix p assume "p \<in> set ps"
      with map_parse_set [OF parsed] obtain e where e: "e \<in> set arr" "parse_elem e = Some p"
        by blast
      from dim e(1) have "elem_dim e = elem_dim (hd arr)" by blast
      then show "length (point p) = length (point (hd ps))"
        by (simp add: elem_dim_def e(2) map_parse_hd [OF parsed pne])
    qed
    with parsed pne no show False
      unfolding well_formed_def by blast
  qed
qed

lemma load_failure:
  assumes "load_fails_spec doc"
  shows "load dflt doc = Some (Sequence_default dflt)"
proof (cases doc)
  case (JArray arr)
  show ?thesis
  proof (cases "\<exists>e\<in>set arr. parse_elem e = None")
    case True
    then show ?thesis
      by (simp add: JArray load_def load_loop_unparsed)
  next
    case False
    then have "\<forall>e\<in>set arr. parse_elem e \<noteq> None" by simp
    from parsed_exists [OF this] obtain ps where parsed: "map parse_elem arr = map Some ps"
      by blast
    from assms JArray have "\<not> well_formed arr ps"
      by (simp add: load_fails_spec_array)
    with parsed have "ps = [] \<or> \<not> (\<forall>p\<in>set ps. length (point p) = length (point (hd ps)))"
      unfolding well_formed_def by blast
    then show ?thesis
      by (auto simp: JArray load_def load_loop_init [OF parsed])
  qed
qed (simp_all add: load_def)

subsection \<open>Invariants of the reachable states\<close>

text \<open>Every reachable Sequence has bounds of \<^verbatim>\<open>m_pointDim\<close> coordinates, and if its bounds are
  ordered all its stored points lie within them.\<close>

lemma load_shape:
  assumes "load dflt doc = Some s"
  shows "s = Sequence_default dflt \<or>
         (\<exists>n mn mx ps vs c. s = (Sequence_ctor n mn mx)\<lparr>m_sequence := vs, m_curPoint := c\<rparr> \<and>
            list_all2 (\<lambda>p v. validatePoint (Sequence_ctor n mn mx) p False = Some v) ps vs)"
proof (cases doc)
  case (JArray arr)
  show ?thesis
  proof (cases "load_loop arr \<lparr>ls_list = [], ls_minPoint = dflt, ls_maxPoint = dflt, ls_dim = -1, ls_index = 0\<rparr>")
    case None
    with assms JArray show ?thesis
      by (auto simp: load_def)
  next
    case (Some st)
    show ?thesis
    proof (cases "ls_index st < 1")
      case True
      with assms JArray Some show ?thesis
        by (auto simp: load_def)
    next
      case False
      let ?init = "Sequence_ctor (nat (ls_dim st)) (ls_minPoint st) (ls_maxPoint st)"
      from assms JArray Some False obtain vs where
        vs: "list_all2 (\<lambda>p v. validatePoint ?init p False = Some v) (ls_list st) vs"
        and s: "s = (if ls_list st \<noteq> [] then ?init\<lparr>m_sequence := m_sequence ?init @ vs, m_curPoint := 0\<rparr>
                     else ?init\<lparr>m_sequence := m_sequence ?init @ vs\<rparr>)"
        by (auto simp: load_def append_validated_eq those_map_Some_iff split: if_splits option.splits)
      have "s = ?init\<lparr>m_sequence := vs, m_curPoint := (if ls_list st \<noteq> [] then 0 else -1)\<rparr>"
        unfolding s by (simp add: Sequence_ctor_def)
      with vs show ?thesis by blast
    qed
  qed
qed (use assms in \<open>auto simp: load_def\<close>)

lemma load_wf_bounds: "load dflt doc = Some s \<Longrightarrow> wf_bounds s"
  by (drule load_shape) (auto simp: Sequence_default_def wf_bounds_def Sequence_ctor_def)

lemma reachable_wf_bounds: "reachable dflt s \<Longrightarrow> wf_bounds s"
proof (induction rule: reachable.induct)
  case (constructed pointDim minVals maxVals)
  show ?case by (rule wf_bounds_ctor)
next
  case (loaded doc s)
  then show ?case by (rule load_wf_bounds)
next
  case (called s c s')
  with exec_frame [OF called.hyps(2)] show ?case
    by (simp add: wf_bounds_def)
qed

lemma validated_in_bounds:
  "list_all2 (\<lambda>p v. validatePoint s p False = Some v) ps vs \<Longrightarrow> wf_bounds s \<Longrightarrow>
     bounds_ordered s \<Longrightarrow> list_all (in_bounds s) vs"
  by (induction rule: list_all2_induct) (auto intro: validatePoint_in_bounds)

lemma load_points_in_bounds:
  assumes "load dflt doc = Some s" and "bounds_ordered s"
  shows "list_all (in_bounds s) (m_sequence s)"
proof -
  from load_shape [OF assms(1)] show ?thesis
  proof
    assume "s = Sequence_default dflt"
    then show ?thesis by (simp add: Sequence_default_def Sequence_ctor_def)
  next
    assume "\<exists>n mn mx ps vs c. s = (Sequence_ctor n mn mx)\<lparr>m_sequence := vs, m_curPoint := c\<rparr> \<and>
            list_all2 (\<lambda>p v. validatePoint (Sequence_ctor n mn mx) p False = Some v) ps vs"
    then obtain n mn mx ps vs c where s: "s = (Sequence_ctor n mn mx)\<lparr>m_sequence := vs, m_curPoint := c\<rparr>"
      and vs: "list_all2 (\<lambda>p v. validatePoint (Sequence_ctor n mn mx) p False = Some v) ps vs"
      by blast
    from assms(2) have "bounds_ordered (Sequence_ctor n mn mx)"
      by (simp add: s bounds_ordered_def)
    from validated_in_bounds [OF vs wf_bounds_ctor this]
    have "list_all (in_bounds (Sequence_ctor n mn mx)) vs" .
    moreover have "in_bounds s = in_bounds (Sequence_ctor n mn mx)"
      by (rule in_bounds_frame) (simp_all add: s)
    ultimately show ?thesis
      by (simp add: s)
  qed
qed

lemma reachable_points_in_bounds:
  "reachable dflt s \<Longrightarrow> bounds_ordered s \<Longrightarrow> list_all (in_bounds s) (m_sequence s)"
proof (induction rule: reachable.induct)
  case (constructed pointDim minVals maxVals)
  show ?case by (simp add: Sequence_ctor_def)
next
  case (loaded doc s)
  then show ?case by (rule load_points_in_bounds)
next
  case (called s c s')
  note frame = exec_frame [OF called.hyps(2)]
  from frame called.prems have ord: "bounds_ordered s"
    by (simp add: bounds_ordered_def)
  from called.IH [OF ord] have "list_all (in_bounds s) (m_sequence s)" .
  from exec_points [OF called.hyps(2) reachable_wf_bounds [OF called.hyps(1)] ord this]
  have "list_all (in_bounds s) (m_sequence s')" .
  moreover from frame have "in_bounds s' = in_bounds s"
    by (intro in_bounds_frame) simp_all
  ultimately show ?case by simp
qed

section \<open>Concrete evaluations\<close>

lemma ex_seq_simps:
  "ex_seq = \<lparr>m_pointDim = 3, m_min = ex_min, m_max = ex_max, m_sequence = [], m_curPoint = -1,
      m_isModified = False, emitted = []\<rparr>"
  by (simp add: ex_seq_def Sequence_ctor_def resize_coords_def ex_min_def ex_max_def)

lemmas eval_defs =
  isValid_def newPoint_def defaultSequencePoint_def ex_min_def ex_max_def dflt0_def
  validatePoint_def resize_coords_def std_min_def std_max_def std_min_int_def std_max_int_def
  half_int_def word_sless_alt word_sle_eq emit_def sequenceModified_def signalChange_def
  ex_point_def elem_at_def qlist_insert_def removeAt_def eval_nat_numeral Let_def

lemma ex_seq1_invariants:
  "isValid ex_seq1" "wf_bounds ex_seq1" "bounds_ordered ex_seq1"
  "list_all (in_bounds ex_seq1) (m_sequence ex_seq1)" "cursor_ok ex_seq1"
  by (simp_all add: ex_seq1_def ex_seq_simps isValid_def wf_bounds_def bounds_ordered_def
      in_bounds_def cursor_ok_def ex_min_def ex_max_def ex_point_def word_sle_eq)

lemma setPointCoordinate_example:
  "setPointCoordinate 1 42 ex_seq1 =
     Some (ex_seq\<lparr>m_sequence := [\<lparr>point = [5, 10, 5], duration = 50, timeToTarget = 0\<rparr>],
              m_curPoint := 0, m_isModified := True,
              emitted := [pointValuesChanged 0, curPointValuesChanged, isModifiedChanged]\<rparr>)"
  by (simp add: ex_seq1_def ex_seq_simps setPointCoordinate_def setPointCoordinate_pos_def eval_defs)

lemma removeCurrent_ex_seq1:
  "removeCurrent ex_seq1 =
     Some (ex_seq\<lparr>m_isModified := True,
              emitted := [numPointsChanged, curPointChanged, isModifiedChanged]\<rparr>)"
  by (simp add: ex_seq1_def ex_seq_simps removeCurrent_def eval_defs)

lemma append_seq_ex_seq:
  "append_seq dflt0 ex_seq =
     Some \<lparr>m_pointDim = 3, m_min = ex_min, m_max = ex_max,
           m_sequence = [\<lparr>point = [5, 5, 5], duration = 50, timeToTarget = 0\<rparr>],
           m_curPoint = 0, m_isModified = True,
           emitted = [numPointsChanged, curPointChanged, isModifiedChanged]\<rparr>"
  by (simp add: ex_seq_simps append_seq_def eval_defs)

lemma Sequence_ctor_id:
  "length (point mn) = n \<Longrightarrow> length (point mx) = n \<Longrightarrow>
     Sequence_ctor n mn mx =
       \<lparr>m_pointDim = n, m_min = mn, m_max = mx, m_sequence = [], m_curPoint = -1,
        m_isModified = False, emitted = []\<rparr>"
  by (simp add: Sequence_ctor_def resize_coords_id)

lemma list_all2_validate_id:
  "list_all (in_bounds s) ps \<Longrightarrow> list_all2 (\<lambda>p v. validatePoint s p False = Some v) ps vs \<Longrightarrow>
     vs = ps"
proof (induction ps arbitrary: vs)
  case Nil
  then show ?case by simp
next
  case (Cons p ps)
  then show ?case
    by (cases vs) (auto simp: validatePoint_id)
qed

lemmas json_defs =
  load_fails_spec_def is_object_def parse_elem_def elem_dim_def fromJson_def json_numbers_def
  json_number_def json_int_def

lemma doc3_ok:
  "\<not> load_fails_spec (JArray
      [JObject [(''point'', JArray [JNumber 0, JNumber 0]), (''duration'', JNumber 0),
                (''timeToTarget'', JNumber 0)],
       JObject [(''point'', JArray [JNumber 10, JNumber 10]), (''duration'', JNumber 100),
                (''timeToTarget'', JNumber 100)],
       JObject [(''point'', JArray [JNumber 5, JNumber 42]), (''duration'', JNumber 500),
                (''timeToTarget'', JNumber (-3))]])"
  by (simp add: json_defs)

lemma doc3_load:
  "load dflt0 (JArray
      [JObject [(''point'', JArray [JNumber 0, JNumber 0]), (''duration'', JNumber 0),
                (''timeToTarget'', JNumber 0)],
       JObject [(''point'', JArray [JNumber 10, JNumber 10]), (''duration'', JNumber 100),
                (''timeToTarget'', JNumber 100)],
       JObject [(''point'', JArray [JNumber 5, JNumber 42]), (''duration'', JNumber 500),
                (''timeToTarget'', JNumber (-3))]]) =
     Some \<lparr>m_pointDim = 2,
           m_min = \<lparr>point = [0, 0], duration = 0, timeToTarget = 0\<rparr>,
           m_max = \<lparr>point = [10, 10], duration = 100, timeToTarget = 100\<rparr>,
           m_sequence = [\<lparr>point = [5, 10], duration = 100, timeToTarget = 0\<rparr>],
           m_curPoint = 0, m_isModified = False, emitted = []\<rparr>"
  by (simp add: load_def load_loop.simps(2) json_defs Sequence_ctor_def validatePoint_def
      resize_coords_def std_min_def std_max_def std_min_int_def std_max_int_def word_sless_alt
      Let_def)

section \<open>The claims\<close>

text \<open>
  C1. Take a valid Sequence whose bounds have \<^verbatim>\<open>m_pointDim\<close> coordinates (what the
  constructor establishes) and are ordered, and whose stored points all have
  \<^verbatim>\<open>m_pointDim\<close> coordinates and lie within the bounds. After any single call of a
  mutator the bounds and the dimension are the same and every stored point again has
  exactly \<^verbatim>\<open>m_pointDim\<close> coordinates, with every coordinate, the duration and the
  timeToTarget within the inclusive range of the bounds. The call returns whenever
  the cursor is -1 or an index of the list and the indices passed are in range. The
  hypotheses on the dimensions hold in every reachable state, and so does the one on
  the stored points when the bounds are ordered (\<open>reachable_wf_bounds\<close>,
  \<open>reachable_points_in_bounds\<close>).
\<close>

theorem mutator_keeps_points_in_bounds:
  assumes "isValid s" and "wf_bounds s" and "bounds_ordered s"
    and "list_all (in_bounds s) (m_sequence s)"
  shows "(\<forall>s'. exec dflt c s = Some s' \<longrightarrow>
            m_pointDim s' = m_pointDim s \<and> m_min s' = m_min s \<and> m_max s' = m_max s \<and>
            list_all (in_bounds s') (m_sequence s')) \<and>
         (cursor_ok s \<and> args_in_range s c \<longrightarrow> (\<exists>s'. exec dflt c s = Some s'))"
proof (intro conjI allI impI)
  fix s' assume run: "exec dflt c s = Some s'"
  from exec_frame [OF run]
  show "m_pointDim s' = m_pointDim s" "m_min s' = m_min s" "m_max s' = m_max s"
    by simp_all
  then have "in_bounds s' = in_bounds s"
    by (rule in_bounds_frame)
  with exec_points [OF run assms(2,3,4)] show "list_all (in_bounds s') (m_sequence s')"
    by simp
next
  assume "cursor_ok s \<and> args_in_range s c"
  with assms(2,4) show "\<exists>s'. exec dflt c s = Some s'"
    by (simp add: exec_total)
qed

theorem mutator_keeps_points_in_bounds_witness:
  "isValid ex_seq1 \<and> wf_bounds ex_seq1 \<and> bounds_ordered ex_seq1 \<and>
   list_all (in_bounds ex_seq1) (m_sequence ex_seq1) \<and>
   cursor_ok ex_seq1 \<and> args_in_range ex_seq1 (SetPointCoordinate 1 42) \<and>
   exec dflt0 (SetPointCoordinate 1 42) ex_seq1 =
     Some (ex_seq\<lparr>m_sequence := [\<lparr>point = [5, 10, 5], duration = 50, timeToTarget = 0\<rparr>],
              m_curPoint := 0, m_isModified := True,
              emitted := [pointValuesChanged 0, curPointValuesChanged, isModifiedChanged]\<rparr>) \<and>
   list_all (in_bounds ex_seq1) [\<lparr>point = [5, 10, 5], duration = 50, timeToTarget = 0\<rparr>]"
proof -
  let ?s' = "ex_seq\<lparr>m_sequence := [\<lparr>point = [5, 10, 5], duration = 50, timeToTarget = 0\<rparr>],
              m_curPoint := 0, m_isModified := True,
              emitted := [pointValuesChanged 0, curPointValuesChanged, isModifiedChanged]\<rparr>"
  have range: "args_in_range ex_seq1 (SetPointCoordinate 1 42)"
    by (simp add: ex_seq1_def ex_seq_simps)
  have run: "exec dflt0 (SetPointCoordinate 1 42) ex_seq1 = Some ?s'"
    by (simp add: setPointCoordinate_example)
  from mutator_keeps_points_in_bounds [OF ex_seq1_invariants(1-4), of dflt0 "SetPointCoordinate 1 42"]
  have "exec dflt0 (SetPointCoordinate 1 42) ex_seq1 = Some ?s' \<longrightarrow>
          list_all (in_bounds ?s') (m_sequence ?s')"
    by blast
  with run have "list_all (in_bounds ?s') (m_sequence ?s')"
    by blast
  then have "list_all (in_bounds ex_seq1) [\<lparr>point = [5, 10, 5], duration = 50, timeToTarget = 0\<rparr>]"
    by (simp add: in_bounds_def ex_seq1_def)
  with ex_seq1_invariants range run show ?thesis
    by simp
qed

text \<open>
  C2. For a valid Sequence whose bounds have \<^verbatim>\<open>m_pointDim\<close> coordinates and whose
  stored points all lie within the bounds, \<^verbatim>\<open>load(s.save())\<close> does not return the
  default invalid Sequence: it returns a Sequence with the same \<^verbatim>\<open>pointDim\<close>, the same
  min and max and the same list of points in the same order, and its modified flag is
  false.
\<close>

theorem load_save_roundtrip:
  assumes "isValid s" and "wf_bounds s" and "list_all (in_bounds s) (m_sequence s)"
  shows "\<exists>s'. load dflt (fst (save s)) = Some s' \<and>
              s' \<noteq> Sequence_default dflt \<and> \<not> default_invalid s' \<and>
              m_pointDim s' = m_pointDim s \<and> m_min s' = m_min s \<and> m_max s' = m_max s \<and>
              m_sequence s' = m_sequence s \<and> \<not> m_isModified s'"
proof -
  let ?arr = "toJson (m_min s) # toJson (m_max s) # map toJson (m_sequence s)"
  let ?ps = "m_min s # m_max s # m_sequence s"
  let ?init = "\<lparr>m_pointDim = m_pointDim s, m_min = m_min s, m_max = m_max s, m_sequence = [],
              m_curPoint = -1, m_isModified = False, emitted = []\<rparr>"
  from assms(2) have len:
    "length (point (m_min s)) = m_pointDim s" "length (point (m_max s)) = m_pointDim s"
    by (simp_all add: wf_bounds_def)
  have parsed: "map parse_elem ?arr = map Some ?ps"
    by (simp add: fromJson_toJson comp_def)
  have dims: "\<forall>p\<in>set ?ps. length (point p) = length (point (hd ?ps))"
    using assms(3) len by (auto simp: list_all_iff in_bounds_def)
  have init:
    "Sequence_ctor (length (point (hd ?ps))) (hd ?ps) (case ?ps of p # q # qs \<Rightarrow> q | _ \<Rightarrow> dflt) =
       ?init"
    using len by (simp add: Sequence_ctor_id)
  from load_parsed [OF parsed _ dims, of dflt] obtain vs where
    ld: "load dflt (JArray ?arr) =
           Some (?init\<lparr>m_sequence := vs, m_curPoint := (if drop 2 ?ps \<noteq> [] then 0 else -1)\<rparr>)"
    and vs: "list_all2 (\<lambda>p v. validatePoint ?init p False = Some v) (drop 2 ?ps) vs"
    unfolding init by blast
  have "in_bounds ?init = in_bounds s"
    by (rule in_bounds_frame) simp_all
  with assms(3) have "list_all (in_bounds ?init) (m_sequence s)"
    by simp
  from list_all2_validate_id [OF this, of vs] vs have "vs = m_sequence s"
    by simp
  with ld assms(1) show ?thesis
    by (simp add: save_def isValid_def default_invalid_def Sequence_default_def Sequence_ctor_def)
qed

theorem load_save_roundtrip_witness:
  "isValid ex_seq1 \<and> wf_bounds ex_seq1 \<and> list_all (in_bounds ex_seq1) (m_sequence ex_seq1) \<and>
   map_option m_sequence (load dflt0 (fst (save ex_seq1))) = Some [ex_point] \<and>
   map_option m_min (load dflt0 (fst (save ex_seq1))) = Some ex_min \<and>
   map_option m_max (load dflt0 (fst (save ex_seq1))) = Some ex_max \<and>
   map_option m_pointDim (load dflt0 (fst (save ex_seq1))) = Some 3 \<and>
   map_option m_isModified (load dflt0 (fst (save ex_seq1))) = Some False"
proof -
  from load_save_roundtrip [OF ex_seq1_invariants(1,2,4), of dflt0]
  obtain s' where "load dflt0 (fst (save ex_seq1)) = Some s'"
    "m_pointDim s' = m_pointDim ex_seq1" "m_min s' = m_min ex_seq1" "m_max s' = m_max ex_seq1"
    "m_sequence s' = m_sequence ex_seq1" "\<not> m_isModified s'"
    by blast
  with ex_seq1_invariants show ?thesis
    by (simp add: ex_seq1_def ex_seq_simps)
qed

text \<open>
  C3, as amended. \<^verbatim>\<open>load(d)\<close> returns the default invalid Sequence if \<open>d\<close> is not an
  array, or some array element is not an object, or some element fails \<^verbatim>\<open>fromJson\<close>, or
  the point dimension of some element differs from that of the first element, or the
  array is empty. Otherwise it returns a Sequence whose \<^verbatim>\<open>pointDim\<close> is the common
  dimension of the elements, so it is valid exactly when that dimension is positive,
  and then it is not the default invalid Sequence; its min is element 0; its max is element 1
  when the array has at least two elements and the default-constructed point resized
  to the common dimension when it has one; its point list is elements 2..N in order,
  each passed through \<^verbatim>\<open>validatePoint\<close>; its cursor is 0 if that list is non-empty and
  -1 otherwise; its modified flag is false.
\<close>

theorem load_characterised:
  "(load_fails_spec doc \<longrightarrow> load dflt doc = Some (Sequence_default dflt)) \<and>
   (\<not> load_fails_spec doc \<longrightarrow>
      (\<exists>arr ps s. doc = JArray arr \<and> map parse_elem arr = map Some ps \<and> ps \<noteq> [] \<and>
         load dflt doc = Some s \<and>
         m_pointDim s = length (point (hd ps)) \<and>
         m_min s = hd ps \<and>
         m_max s = (if 2 \<le> length ps then ps ! 1
                    else dflt\<lparr>point := resize_coords (m_pointDim s) (point dflt)\<rparr>) \<and>
         list_all2 (\<lambda>p v. validatePoint s p False = Some v) (drop 2 ps) (m_sequence s) \<and>
         m_curPoint s = (if m_sequence s \<noteq> [] then 0 else -1) \<and>
         \<not> m_isModified s \<and>
         (isValid s \<longleftrightarrow> 0 < length (point (hd ps))) \<and>
         (0 < length (point (hd ps)) \<longrightarrow> \<not> default_invalid s)))"
proof (intro conjI impI)
  assume "load_fails_spec doc"
  then show "load dflt doc = Some (Sequence_default dflt)"
    by (rule load_failure)
next
  assume ok: "\<not> load_fails_spec doc"
  then obtain arr where doc: "doc = JArray arr"
    by (cases doc) (simp_all add: load_fails_spec_def)
  with ok obtain ps where wf: "well_formed arr ps"
    by (auto simp: load_fails_spec_array)
  then have parsed: "map parse_elem arr = map Some ps" and ne: "ps \<noteq> []"
    and dims: "\<forall>p\<in>set ps. length (point p) = length (point (hd ps))"
    unfolding well_formed_def by blast+
  let ?d = "length (point (hd ps))"
  let ?mx = "case ps of p # q # qs \<Rightarrow> q | _ \<Rightarrow> dflt"
  let ?init = "Sequence_ctor ?d (hd ps) ?mx"
  from load_parsed [OF parsed ne dims, of dflt] obtain vs where
    ld: "load dflt (JArray arr) = Some (?init\<lparr>m_sequence := vs,
            m_curPoint := (if drop 2 ps \<noteq> [] then 0 else -1)\<rparr>)"
    and vs: "list_all2 (\<lambda>p v. validatePoint ?init p False = Some v) (drop 2 ps) vs"
    by blast
  let ?s = "?init\<lparr>m_sequence := vs, m_curPoint := (if drop 2 ps \<noteq> [] then 0 else -1)\<rparr>"
  have mn: "m_min ?s = hd ps"
    by (simp add: Sequence_ctor_def resize_coords_id)
  have mx: "m_max ?s = (if 2 \<le> length ps then ps ! 1
                    else dflt\<lparr>point := resize_coords (m_pointDim ?s) (point dflt)\<rparr>)"
  proof (cases ps)
    case Nil
    with ne show ?thesis by simp
  next
    case (Cons p0 ps1)
    show ?thesis
    proof (cases ps1)
      case Nil
      with Cons show ?thesis by (simp add: Sequence_ctor_def)
    next
      case (Cons p1 ps2)
      with \<open>ps = p0 # ps1\<close> dims have "length (point p1) = length (point p0)"
        by simp
      with Cons \<open>ps = p0 # ps1\<close> show ?thesis
        by (simp add: Sequence_ctor_def resize_coords_id)
    qed
  qed
  have "\<And>p. validatePoint ?s p False = validatePoint ?init p False"
    by (rule validatePoint_frame) simp_all
  moreover have "m_sequence ?s = vs"
    by simp
  ultimately have val: "list_all2 (\<lambda>p v. validatePoint ?s p False = Some v) (drop 2 ps) (m_sequence ?s)"
    using vs by (simp only:)
  have len: "length vs = length (drop 2 ps)"
    using list_all2_lengthD [OF vs] by simp
  have cur: "m_curPoint ?s = (if m_sequence ?s \<noteq> [] then 0 else -1)"
    using len by (cases vs) auto
  have rest: "m_pointDim ?s = ?d" "\<not> m_isModified ?s" "isValid ?s \<longleftrightarrow> 0 < ?d"
    "0 < ?d \<longrightarrow> \<not> default_invalid ?s"
    by (simp_all add: Sequence_ctor_def isValid_def default_invalid_def)
  from doc parsed ne ld mn mx val cur rest
  show "\<exists>arr ps s. doc = JArray arr \<and> map parse_elem arr = map Some ps \<and> ps \<noteq> [] \<and>
         load dflt doc = Some s \<and>
         m_pointDim s = length (point (hd ps)) \<and>
         m_min s = hd ps \<and>
         m_max s = (if 2 \<le> length ps then ps ! 1
                    else dflt\<lparr>point := resize_coords (m_pointDim s) (point dflt)\<rparr>) \<and>
         list_all2 (\<lambda>p v. validatePoint s p False = Some v) (drop 2 ps) (m_sequence s) \<and>
         m_curPoint s = (if m_sequence s \<noteq> [] then 0 else -1) \<and>
         \<not> m_isModified s \<and>
         (isValid s \<longleftrightarrow> 0 < length (point (hd ps))) \<and>
         (0 < length (point (hd ps)) \<longrightarrow> \<not> default_invalid s)"
    by blast
qed

theorem load_characterised_witness:
  "load_fails_spec (JObject []) \<and> load dflt0 (JObject []) = Some (Sequence_default dflt0) \<and>
   load_fails_spec (JArray []) \<and> load dflt0 (JArray []) = Some (Sequence_default dflt0) \<and>
   \<not> load_fails_spec (JArray
      [JObject [(''point'', JArray [JNumber 0, JNumber 0]), (''duration'', JNumber 0),
                (''timeToTarget'', JNumber 0)],
       JObject [(''point'', JArray [JNumber 10, JNumber 10]), (''duration'', JNumber 100),
                (''timeToTarget'', JNumber 100)],
       JObject [(''point'', JArray [JNumber 5, JNumber 42]), (''duration'', JNumber 500),
                (''timeToTarget'', JNumber (-3))]]) \<and>
   load dflt0 (JArray
      [JObject [(''point'', JArray [JNumber 0, JNumber 0]), (''duration'', JNumber 0),
                (''timeToTarget'', JNumber 0)],
       JObject [(''point'', JArray [JNumber 10, JNumber 10]), (''duration'', JNumber 100),
                (''timeToTarget'', JNumber 100)],
       JObject [(''point'', JArray [JNumber 5, JNumber 42]), (''duration'', JNumber 500),
                (''timeToTarget'', JNumber (-3))]]) =
     Some \<lparr>m_pointDim = 2,
           m_min = \<lparr>point = [0, 0], duration = 0, timeToTarget = 0\<rparr>,
           m_max = \<lparr>point = [10, 10], duration = 100, timeToTarget = 100\<rparr>,
           m_sequence = [\<lparr>point = [5, 10], duration = 100, timeToTarget = 0\<rparr>],
           m_curPoint = 0, m_isModified = False, emitted = []\<rparr>"
proof -
  have a: "load_fails_spec (JObject [])" and b: "load_fails_spec (JArray [])"
    by (simp_all add: load_fails_spec_def)
  from load_characterised [of "JObject []" dflt0] a
  have a': "load dflt0 (JObject []) = Some (Sequence_default dflt0)"
    by blast
  from load_characterised [of "JArray []" dflt0] b
  have b': "load dflt0 (JArray []) = Some (Sequence_default dflt0)"
    by blast
  from a b a' b' doc3_ok doc3_load show ?thesis
    by blast
qed

text \<open>
  The claim C3 as stated fails on two arrays of one element. For the element
  \<^verbatim>\<open>{"point": [], "duration": 0, "timeToTarget": 0}\<close> none of the listed conditions
  holds, and yet \<^verbatim>\<open>load\<close> returns the default invalid Sequence: the common dimension
  is 0. For the element \<^verbatim>\<open>{"point": [1], "duration": 3, "timeToTarget": 4}\<close> none of
  the conditions holds, the array has no element 1, and the max of the result is the
  default-constructed point padded to one coordinate.
\<close>

theorem load_claim_counterexample:
  "\<not> load_fails_spec (JArray
      [JObject [(''point'', JArray []), (''duration'', JNumber 0), (''timeToTarget'', JNumber 0)]]) \<and>
   load dflt0 (JArray
      [JObject [(''point'', JArray []), (''duration'', JNumber 0), (''timeToTarget'', JNumber 0)]]) =
     Some (Sequence_default dflt0) \<and>
   default_invalid (Sequence_default dflt0) \<and>
   \<not> load_fails_spec (JArray
      [JObject [(''point'', JArray [JNumber 1]), (''duration'', JNumber 3),
                (''timeToTarget'', JNumber 4)]]) \<and>
   load dflt0 (JArray
      [JObject [(''point'', JArray [JNumber 1]), (''duration'', JNumber 3),
                (''timeToTarget'', JNumber 4)]]) =
     Some \<lparr>m_pointDim = 1,
           m_min = \<lparr>point = [1], duration = 3, timeToTarget = 4\<rparr>,
           m_max = \<lparr>point = [0], duration = 0, timeToTarget = 0\<rparr>,
           m_sequence = [], m_curPoint = -1, m_isModified = False, emitted = []\<rparr>"
  by (simp add: load_def load_loop.simps(2) json_defs Sequence_ctor_def Sequence_default_def
      default_invalid_def dflt0_def resize_coords_def Let_def)

text \<open>
  C4. \<^verbatim>\<open>save(filename)\<close> returns false on an invalid Sequence. On a valid one, if the
  file cannot be opened or the write reports an error, it returns false and the
  modified flag is what it was before the call. It returns true exactly when the
  Sequence is valid, the file opens and the write reports no error, and then the
  modified flag is false.
\<close>

theorem save_file_result:
  "(\<not> isValid s \<longrightarrow> \<not> fst (save_file open_ok write_ok s)) \<and>
   (isValid s \<and> (\<not> open_ok \<or> \<not> write_ok) \<longrightarrow>
      \<not> fst (save_file open_ok write_ok s) \<and>
      m_isModified (snd (save_file open_ok write_ok s)) = m_isModified s) \<and>
   (fst (save_file open_ok write_ok s) \<longleftrightarrow> isValid s \<and> open_ok \<and> write_ok) \<and>
   (fst (save_file open_ok write_ok s) \<longrightarrow> \<not> m_isModified (snd (save_file open_ok write_ok s)))"
  by (simp add: save_file_def save_def Let_def)

theorem save_file_result_witness:
  "isValid (ex_seq1\<lparr>m_isModified := True\<rparr>) \<and>
   \<not> fst (save_file False True (ex_seq1\<lparr>m_isModified := True\<rparr>)) \<and>
   m_isModified (snd (save_file False True (ex_seq1\<lparr>m_isModified := True\<rparr>))) \<and>
   \<not> fst (save_file True False (ex_seq1\<lparr>m_isModified := True\<rparr>)) \<and>
   m_isModified (snd (save_file True False (ex_seq1\<lparr>m_isModified := True\<rparr>))) \<and>
   fst (save_file True True (ex_seq1\<lparr>m_isModified := True\<rparr>)) \<and>
   \<not> m_isModified (snd (save_file True True (ex_seq1\<lparr>m_isModified := True\<rparr>)))"
proof -
  have v: "isValid (ex_seq1\<lparr>m_isModified := True\<rparr>)"
    by (simp add: ex_seq1_def ex_seq_simps isValid_def)
  show ?thesis
    using v save_file_result [of "ex_seq1\<lparr>m_isModified := True\<rparr>" False True]
      save_file_result [of "ex_seq1\<lparr>m_isModified := True\<rparr>" True False]
      save_file_result [of "ex_seq1\<lparr>m_isModified := True\<rparr>" True True]
    by simp
qed

text \<open>
  C5. On the empty Sequence with bounds \<^verbatim>\<open>{0,0,0; dur 0; ttt 0}\<close> and
  \<^verbatim>\<open>{10,10,10; dur 100; ttt 100}\<close>, \<^verbatim>\<open>insertAfterCurrent()\<close> stores one point with the
  coordinates (5,5,5) and the duration 50 and moves the cursor to 0, but the
  timeToTarget of that point is not the average 50: \<^verbatim>\<open>defaultSequencePoint\<close> never
  assigns it, so it is the timeToTarget of a default-constructed point clamped into
  the bounds, 0 for a default of 0.
\<close>

theorem insertAfterCurrent_example:
  "insertAfterCurrent dflt0 ex_seq =
     Some \<lparr>m_pointDim = 3, m_min = ex_min, m_max = ex_max,
           m_sequence = [\<lparr>point = [5, 5, 5], duration = 50, timeToTarget = 0\<rparr>],
           m_curPoint = 0, m_isModified = True,
           emitted = [numPointsChanged, curPointChanged, isModifiedChanged]\<rparr> \<and>
   map_option m_sequence (insertAfterCurrent dflt ex_seq) =
     Some [\<lparr>point = [5, 5, 5], duration = 50,
            timeToTarget = std_min_int 100 (std_max_int 0 (timeToTarget dflt))\<rparr>]"
proof
  show "insertAfterCurrent dflt0 ex_seq =
     Some \<lparr>m_pointDim = 3, m_min = ex_min, m_max = ex_max,
           m_sequence = [\<lparr>point = [5, 5, 5], duration = 50, timeToTarget = 0\<rparr>],
           m_curPoint = 0, m_isModified = True,
           emitted = [numPointsChanged, curPointChanged, isModifiedChanged]\<rparr>"
    by (simp add: ex_seq_simps insertAfterCurrent_def eval_defs)
  have "std_min_int 100 (std_max_int 0 50) = 50"
    by (simp add: std_min_int_def std_max_int_def word_sless_alt)
  then show "map_option m_sequence (insertAfterCurrent dflt ex_seq) =
     Some [\<lparr>point = [5, 5, 5], duration = 50,
            timeToTarget = std_min_int 100 (std_max_int 0 (timeToTarget dflt))\<rparr>]"
    by (cases dflt)
       (simp add: ex_seq_simps insertAfterCurrent_def isValid_def newPoint_def
          defaultSequencePoint_def ex_min_def ex_max_def validatePoint_def resize_coords_def
          std_min_def std_max_def half_int_def emit_def sequenceModified_def eval_nat_numeral
          Let_def)
qed

text \<open>
  C6. In every state reachable from the constructor or from \<^verbatim>\<open>load\<close> by calls of the
  mutators, the cursor is -1 if the point list is empty and an index of the list,
  between 0 and length - 1, otherwise.
\<close>

theorem reachable_cursor:
  assumes "reachable dflt s"
  shows "(m_sequence s = [] \<longrightarrow> m_curPoint s = -1) \<and>
         (m_sequence s \<noteq> [] \<longrightarrow>
            0 \<le> m_curPoint s \<and> m_curPoint s \<le> int (length (m_sequence s)) - 1)"
  using reachable_cursor_ok [OF assms] by (auto simp: cursor_ok_def split: if_splits)

theorem reachable_cursor_witness:
  "reachable dflt0
     \<lparr>m_pointDim = 3, m_min = ex_min, m_max = ex_max,
      m_sequence = [\<lparr>point = [5, 5, 5], duration = 50, timeToTarget = 0\<rparr>],
      m_curPoint = 0, m_isModified = True,
      emitted = [numPointsChanged, curPointChanged, isModifiedChanged]\<rparr> \<and>
   m_curPoint
     \<lparr>m_pointDim = 3, m_min = ex_min, m_max = ex_max,
      m_sequence = [\<lparr>point = [5, 5, 5], duration = 50, timeToTarget = 0\<rparr>],
      m_curPoint = 0, m_isModified = True,
      emitted = [numPointsChanged, curPointChanged, isModifiedChanged]\<rparr> = 0"
proof -
  let ?s = "\<lparr>m_pointDim = 3, m_min = ex_min, m_max = ex_max,
      m_sequence = [\<lparr>point = [5, 5, 5], duration = 50, timeToTarget = 0\<rparr>],
      m_curPoint = 0, m_isModified = True,
      emitted = [numPointsChanged, curPointChanged, isModifiedChanged]\<rparr>"
  have "reachable dflt0 ex_seq"
    unfolding ex_seq_def by (rule reachable.constructed)
  moreover have "exec dflt0 Append ex_seq = Some ?s"
    by (simp add: append_seq_ex_seq)
  ultimately have r: "reachable dflt0 ?s"
    by (rule reachable.called)
  from r reachable_cursor [OF r] show ?thesis
    by simp
qed

text \<open>
  C7. On the empty example Sequence, where the cursor is -1, \<^verbatim>\<open>insertBeforeCurrent()\<close>
  emits \<^verbatim>\<open>curPointChanged\<close> first and \<^verbatim>\<open>numPointsChanged\<close> second, then
  \<^verbatim>\<open>curPointValuesChanged\<close> and \<^verbatim>\<open>isModifiedChanged\<close>: the cursor signal comes before
  the length signal. With a current point, the same call emits \<^verbatim>\<open>numPointsChanged\<close>,
  \<^verbatim>\<open>curPointValuesChanged\<close>, \<^verbatim>\<open>isModifiedChanged\<close> in this order and leaves the cursor
  index as it was.
\<close>

theorem insertBeforeCurrent_signals:
  "map_option emitted (insertBeforeCurrent dflt0 ex_seq) =
     Some [curPointChanged, numPointsChanged, curPointValuesChanged, isModifiedChanged] \<and>
   map_option (\<lambda>s. (emitted s, m_curPoint s, m_sequence s)) (insertBeforeCurrent dflt0 ex_seq1) =
     Some ([numPointsChanged, curPointValuesChanged, isModifiedChanged], 0, [ex_point, ex_point])"
  by (simp add: ex_seq1_def ex_seq_simps insertBeforeCurrent_def eval_defs)

text \<open>
  C8. After \<^verbatim>\<open>removeCurrent()\<close> on the example Sequence of length 1 the list is empty
  and the cursor is -1. There \<^verbatim>\<open>pointCoordinate(c)\<close>, \<^verbatim>\<open>pointDuration()\<close> and
  \<^verbatim>\<open>pointTimeToTarget()\<close> return 0, but \<^verbatim>\<open>point()\<close> reads \<^verbatim>\<open>m_sequence[-1]\<close>, an access
  out of range.
\<close>

theorem point_after_removeCurrent:
  "map_option m_sequence (removeCurrent ex_seq1) = Some [] \<and>
   map_option m_curPoint (removeCurrent ex_seq1) = Some (-1) \<and>
   Option.bind (removeCurrent ex_seq1) (\<lambda>s. pointCoordinate s 0) = Some 0 \<and>
   Option.bind (removeCurrent ex_seq1) pointDuration = Some 0 \<and>
   Option.bind (removeCurrent ex_seq1) pointTimeToTarget = Some 0 \<and>
   Option.bind (removeCurrent ex_seq1) point_cur = None"
  by (simp add: removeCurrent_ex_seq1 ex_seq_simps point_cur_def elem_at_def pointCoordinate_def
      pointDuration_def pointTimeToTarget_def)

theorem point_after_removeCurrent_witness:
  "isValid ex_seq1 \<and> m_curPoint ex_seq1 = 0 \<and> length (m_sequence ex_seq1) = 1 \<and>
   Option.bind (removeCurrent ex_seq1) point_cur = None \<and>
   Option.bind (removeCurrent ex_seq1) pointDuration = Some 0"
proof -
  have "m_curPoint ex_seq1 = 0" "length (m_sequence ex_seq1) = 1"
    by (simp_all add: ex_seq1_def)
  with ex_seq1_invariants(1) point_after_removeCurrent show ?thesis
    by blast
qed

text \<open>
  C9. On a valid Sequence whose cursor is -1 when the list is empty, \<^verbatim>\<open>clear()\<close>
  leaves the list empty and the cursor at -1 and the modified flag true. It emits
  \<^verbatim>\<open>numPointsChanged\<close> then \<^verbatim>\<open>curPointChanged\<close> when the list was not empty, and
  \<^verbatim>\<open>isModifiedChanged\<close> after them when the flag was false. On an empty list neither
  the list nor the cursor changes and the flag is set all the same.
\<close>

theorem clear_effect:
  assumes "isValid s" and "cursor_ok s"
  shows "m_sequence (clear s) = [] \<and> m_curPoint (clear s) = -1 \<and> m_isModified (clear s) \<and>
         emitted (clear s) =
           emitted s @ (if m_sequence s \<noteq> [] then [numPointsChanged, curPointChanged] else []) @
             (if m_isModified s then [] else [isModifiedChanged]) \<and>
         (m_sequence s = [] \<longrightarrow>
            m_sequence (clear s) = m_sequence s \<and> m_curPoint (clear s) = m_curPoint s) \<and>
         m_pointDim (clear s) = m_pointDim s \<and> m_min (clear s) = m_min s \<and>
         m_max (clear s) = m_max s"
  using assms by (simp add: clear_def cursor_ok_def sequenceModified_def emit_def)

theorem clear_effect_witness:
  "isValid ex_seq \<and> cursor_ok ex_seq \<and> m_sequence ex_seq = [] \<and> \<not> m_isModified ex_seq \<and>
   m_sequence (clear ex_seq) = [] \<and> m_curPoint (clear ex_seq) = -1 \<and>
   m_isModified (clear ex_seq) \<and> emitted (clear ex_seq) = [isModifiedChanged]"
proof -
  have v: "isValid ex_seq"
    by (simp add: ex_seq_simps isValid_def)
  have c: "cursor_ok ex_seq"
    by (simp add: ex_seq_simps cursor_ok_def)
  show ?thesis
    using v c clear_effect [OF v c] by (simp add: ex_seq_simps)
qed

text \<open>
  C10. For an array of exactly one element, an object that \<^verbatim>\<open>fromJson\<close> accepts as a
  point of dimension \<open>d > 0\<close>, \<^verbatim>\<open>load\<close> does not return the default invalid Sequence.
  It returns a valid Sequence with \<^verbatim>\<open>pointDim = d\<close> whose min is that element and whose
  max is the default-constructed point with its coordinates padded with 0.0 to length
  \<open>d\<close> (the default-constructed point has no more than \<open>d\<close> coordinates; a \<^verbatim>\<open>QVector\<close> is
  constructed empty), with an empty point list, cursor -1 and modified flag false.
\<close>

theorem load_single_element:
  assumes "fromJson obj = Some p" and "length (point p) = d" and "0 < d"
    and "length (point dflt) \<le> d"
  shows "load dflt (JArray [JObject obj]) =
           Some \<lparr>m_pointDim = d, m_min = p,
                 m_max = dflt\<lparr>point := point dflt @ replicate (d - length (point dflt)) 0\<rparr>,
                 m_sequence = [], m_curPoint = -1, m_isModified = False, emitted = []\<rparr> \<and>
         load dflt (JArray [JObject obj]) \<noteq> Some (Sequence_default dflt) \<and>
         (\<exists>s. load dflt (JArray [JObject obj]) = Some s \<and> isValid s \<and> \<not> default_invalid s)"
  using assms
  by (auto simp add: load_def load_loop.simps(2) Sequence_ctor_def Sequence_default_def
      resize_coords_def isValid_def default_invalid_def)

theorem load_single_element_witness:
  "fromJson [(''point'', JArray [JNumber 1, JNumber 2]), (''duration'', JNumber 3),
             (''timeToTarget'', JNumber 4)] =
     Some \<lparr>point = [1, 2], duration = 3, timeToTarget = 4\<rparr> \<and>
   load dflt0 (JArray [JObject [(''point'', JArray [JNumber 1, JNumber 2]),
                                (''duration'', JNumber 3), (''timeToTarget'', JNumber 4)]]) =
     Some \<lparr>m_pointDim = 2, m_min = \<lparr>point = [1, 2], duration = 3, timeToTarget = 4\<rparr>,
           m_max = \<lparr>point = [0, 0], duration = 0, timeToTarget = 0\<rparr>,
           m_sequence = [], m_curPoint = -1, m_isModified = False, emitted = []\<rparr>"
proof -
  have p: "fromJson [(''point'', JArray [JNumber 1, JNumber 2]), (''duration'', JNumber 3),
             (''timeToTarget'', JNumber 4)] =
     Some \<lparr>point = [1, 2], duration = 3, timeToTarget = 4\<rparr>"
    by (simp add: fromJson_def json_numbers_def json_number_def json_int_def)
  from load_single_element [OF p, of 2 dflt0] p show ?thesis
    by (simp add: dflt0_def eval_nat_numeral)
qed

end
